theory Spec2Isabelle
  imports Complex_Main
begin

section \<open>nc2shp: contours of a gridded netCDF field written as a polygon shapefile\<close>

text \<open>
  A shallow embedding of \<^verbatim>\<open>nc2shp.py\<close>. Each function of the script is a HOL function
  of the same name. Python exceptions are values of the type \<open>error\<close>, and a function that
  can raise returns \<open>error + 'a\<close> with \<open>Inl\<close> for the exception. The libraries the script
  calls (xarray, matplotlib, shapely, fiona, pyshp, the clock) are not part of the script:
  what they answer is a field of the record \<open>env\<close>, and the files, figures and log lines
  the script leaves behind are the record \<open>world\<close>, passed through every function that
  touches them. Cell values are real numbers: rounding of floating point arithmetic and
  missing values are outside the model.
\<close>

subsection \<open>Exceptions\<close>

datatype error =
    KeyError string
  | ValueError
  | UnboundLocalError string
  | TypeError
  | IndexError
  | OverflowError
  | OSError string
  | ShapefileException string

subsection \<open>Dates and times\<close>

text \<open>
  A naive date and time is a point of the proleptic Gregorian time line, counted in
  nanoseconds: day \<open>n\<close> of Python's \<^verbatim>\<open>toordinal\<close> (day 1 is 0001-01-01) starts at
  \<open>n * day_ns\<close>. The calendar functions follow Python's \<^verbatim>\<open>datetime\<close> module.
\<close>

type_synonym timestamp = int

definition hour_ns :: int where
  "hour_ns = 3600 * 1000000000"

definition day_ns :: int where
  "day_ns = 24 * hour_ns"

definition MINYEAR :: int where
  "MINYEAR = 1"

definition MAXYEAR :: int where
  "MAXYEAR = 9999"

definition MAXORDINAL :: int where
  "MAXORDINAL = 3652059"

definition is_leap :: "int \<Rightarrow> bool" where
  "is_leap year \<longleftrightarrow> year mod 4 = 0 \<and> (year mod 100 \<noteq> 0 \<or> year mod 400 = 0)"

definition days_before_year :: "int \<Rightarrow> int" where
  "days_before_year year =
     (let y = year - 1 in y * 365 + y div 4 - y div 100 + y div 400)"

definition DAYS_IN_MONTH :: "int list" where
  "DAYS_IN_MONTH = [-1, 31, 28, 31, 30, 31, 30, 31, 31, 30, 31, 30, 31]"

definition DAYS_BEFORE_MONTH :: "int list" where
  "DAYS_BEFORE_MONTH = [-1, 0, 31, 59, 90, 120, 151, 181, 212, 243, 273, 304, 334]"

definition days_in_month :: "int \<Rightarrow> int \<Rightarrow> int" where
  "days_in_month year month =
     (if month = 2 \<and> is_leap year then 29 else DAYS_IN_MONTH ! nat month)"

definition days_before_month :: "int \<Rightarrow> int \<Rightarrow> int" where
  "days_before_month year month =
     DAYS_BEFORE_MONTH ! nat month + (if month > 2 \<and> is_leap year then 1 else 0)"

definition ymd2ord :: "int \<Rightarrow> int \<Rightarrow> int \<Rightarrow> int" where
  "ymd2ord year month day = days_before_year year + days_before_month year month + day"

definition ord2ymd :: "int \<Rightarrow> int \<times> int \<times> int" where
  "ord2ymd n0 =
     (let n = n0 - 1;
          n400 = n div 146097; n = n mod 146097;
          n100 = n div 36524; n = n mod 36524;
          n4 = n div 1461; n = n mod 1461;
          n1 = n div 365; n = n mod 365;
          year = n400 * 400 + 1 + n100 * 100 + n4 * 4 + n1
      in if n1 = 4 \<or> n100 = 4 then (year - 1, 12, 31)
         else
           let leapyear = (n1 = 3 \<and> (n4 \<noteq> 24 \<or> n100 = 3));
               month = (n + 50) div 32;
               preceding = DAYS_BEFORE_MONTH ! nat month
                           + (if month > 2 \<and> leapyear then 1 else 0)
           in if preceding > n
              then
                let month = month - 1;
                    preceding = preceding
                                - (DAYS_IN_MONTH ! nat month
                                   + (if month = 2 \<and> leapyear then 1 else 0))
                in (year, month, n - preceding + 1)
              else (year, month, n - preceding + 1))"

text \<open>The date fields of a time stamp: \<^verbatim>\<open>today.year\<close>, \<^verbatim>\<open>today.month\<close>, \<^verbatim>\<open>today.day\<close>.\<close>

definition toordinal :: "timestamp \<Rightarrow> int" where
  "toordinal t = t div day_ns"

definition dt_year :: "timestamp \<Rightarrow> int" where
  "dt_year t = fst (ord2ymd (toordinal t))"

definition dt_month :: "timestamp \<Rightarrow> int" where
  "dt_month t = fst (snd (ord2ymd (toordinal t)))"

definition dt_day :: "timestamp \<Rightarrow> int" where
  "dt_day t = snd (snd (ord2ymd (toordinal t)))"

text \<open>
  \<^verbatim>\<open>dt.datetime(year, month, day, hour, minute, second)\<close>: the constructor raises
  \<^verbatim>\<open>ValueError\<close> for a field out of range.
\<close>

definition datetime :: "int \<Rightarrow> int \<Rightarrow> int \<Rightarrow> int \<Rightarrow> int \<Rightarrow> int \<Rightarrow> error + timestamp" where
  "datetime year month day hour minute second =
     (if \<not> (MINYEAR \<le> year \<and> year \<le> MAXYEAR) then Inl ValueError
      else if \<not> (1 \<le> month \<and> month \<le> 12) then Inl ValueError
      else if \<not> (1 \<le> day \<and> day \<le> days_in_month year month) then Inl ValueError
      else if \<not> (0 \<le> hour \<and> hour \<le> 23) then Inl ValueError
      else if \<not> (0 \<le> minute \<and> minute \<le> 59) then Inl ValueError
      else if \<not> (0 \<le> second \<and> second \<le> 59) then Inl ValueError
      else Inr (ymd2ord year month day * day_ns
                + hour * hour_ns + minute * 60 * 1000000000 + second * 1000000000))"

text \<open>
  Adding a \<^verbatim>\<open>timedelta\<close> to a \<^verbatim>\<open>datetime\<close>: the sum is exact, and Python raises
  \<^verbatim>\<open>OverflowError\<close> when the day of the result is not in \<open>1..MAXORDINAL\<close> (a
  \<^verbatim>\<open>timedelta\<close> too large to build puts the result out of that range as well).
\<close>

definition dt_add :: "timestamp \<Rightarrow> int \<Rightarrow> error + timestamp" where
  "dt_add t delta =
     (let r = t + delta
      in if 0 < toordinal r \<and> toordinal r \<le> MAXORDINAL then Inr r else Inl OverflowError)"

definition timedelta_days :: "int \<Rightarrow> int" where
  "timedelta_days days = days * day_ns"

definition timedelta_hours :: "int \<Rightarrow> int" where
  "timedelta_hours hours = hours * hour_ns"

subsection \<open>get_analysis_date\<close>

text \<open>
  The first argument is what \<^verbatim>\<open>dt.datetime.today()\<close> answers. \<open>None\<close> is Python's
  \<^verbatim>\<open>None\<close> for a date field that the caller left out.
\<close>

definition get_analysis_date ::
  "timestamp \<Rightarrow> int option \<Rightarrow> int option \<Rightarrow> int option \<Rightarrow> int \<Rightarrow> error + (timestamp \<times> timestamp)"
where
  "get_analysis_date now year month day time_window =
     (case dt_add now (- timedelta_days 1) of
        Inl e \<Rightarrow> Inl e
      | Inr today \<Rightarrow>
          let year = (case year of Some y \<Rightarrow> y | None \<Rightarrow> dt_year today);
              month = (case month of Some m \<Rightarrow> m | None \<Rightarrow> dt_month today);
              day = (case day of Some d \<Rightarrow> d | None \<Rightarrow> dt_day today);
              hour = 0;
              minute = 0
          in (case datetime year month day hour minute 0 of
                Inl e \<Rightarrow> Inl e
              | Inr start \<Rightarrow>
                  (case dt_add start (timedelta_hours time_window) of
                     Inl e \<Rightarrow> Inl e
                   | Inr stop \<Rightarrow> Inr (start, stop))))"

subsection \<open>Gridded data\<close>

text \<open>
  A dataset has one time axis, shared by its variables, and every variable holds one
  time series for each cell of the grid (the cells in a fixed order, a variable with a
  \<^verbatim>\<open>lev\<close> dimension counting its levels as cells). \<open>ds_lev\<close> is the length of the
  \<^verbatim>\<open>lev\<close> dimension when the dataset has one. A \<open>data_array\<close> is one variable with its
  time axis, a \<open>field\<close> is what is left once the time axis is reduced away.
\<close>

record dataset =
  ds_time :: "timestamp list"
  ds_lon :: "real list"
  ds_lat :: "real list"
  ds_lev :: "nat option"
  ds_vars :: "string \<rightharpoonup> real list list"

record data_array =
  da_time :: "timestamp list"
  da_lon :: "real list"
  da_lat :: "real list"
  da_lev :: "nat option"
  da_values :: "real list list"

record field =
  arr_lon :: "real list"
  arr_lat :: "real list"
  arr_lev :: "nat option"
  arr_values :: "real list"

text \<open>
  \<^verbatim>\<open>ds.sel(time=slice(start,end))\<close> keeps the samples whose time lies in the closed
  window, in their order (the time axis is ascending, as a slice by label wants it).
\<close>

definition sel_series :: "timestamp \<Rightarrow> timestamp \<Rightarrow> timestamp list \<Rightarrow> 'a list \<Rightarrow> 'a list" where
  "sel_series start stop ts xs =
     map snd (filter (\<lambda>(t, x). start \<le> t \<and> t \<le> stop) (zip ts xs))"

definition sel_time :: "timestamp \<Rightarrow> timestamp \<Rightarrow> dataset \<Rightarrow> dataset" where
  "sel_time start stop ds =
     ds\<lparr>ds_time := filter (\<lambda>t. start \<le> t \<and> t \<le> stop) (ds_time ds),
        ds_vars := (\<lambda>v. map_option (map (sel_series start stop (ds_time ds))) (ds_vars ds v))\<rparr>"

text \<open>\<^verbatim>\<open>ds[v]\<close> raises \<^verbatim>\<open>KeyError\<close> for a name that the dataset does not have.\<close>

definition ds_getitem :: "dataset \<Rightarrow> string \<Rightarrow> error + data_array" where
  "ds_getitem ds v =
     (case ds_vars ds v of
        None \<Rightarrow> Inl (KeyError v)
      | Some vals \<Rightarrow>
          Inr \<lparr>da_time = ds_time ds, da_lon = ds_lon ds, da_lat = ds_lat ds,
               da_lev = ds_lev ds, da_values = vals\<rparr>)"

definition da_add :: "data_array \<Rightarrow> data_array \<Rightarrow> data_array" where
  "da_add a b = a\<lparr>da_values := map2 (map2 (+)) (da_values a) (da_values b)\<rparr>"

text \<open>
  The reducers over the time axis. The value on an empty series is never used:
  \<^verbatim>\<open>times.min()\<close> has raised before a reducer runs on an empty time axis.
\<close>

fun mean_time :: "real list \<Rightarrow> real" where
  "mean_time xs = sum_list xs / real (length xs)"

fun max_time :: "real list \<Rightarrow> real" where
  "max_time [] = 0"
| "max_time (x # xs) = fold max xs x"

fun min_time :: "real list \<Rightarrow> real" where
  "min_time [] = 0"
| "min_time (x # xs) = fold min xs x"

definition da_reduce :: "(real list \<Rightarrow> real) \<Rightarrow> data_array \<Rightarrow> field" where
  "da_reduce f arrs =
     \<lparr>arr_lon = da_lon arrs, arr_lat = da_lat arrs, arr_lev = da_lev arrs,
      arr_values = map f (da_values arrs)\<rparr>"

text \<open>\<^verbatim>\<open>times.min()\<close>: numpy raises \<^verbatim>\<open>ValueError\<close> on an array of size zero.\<close>

definition times_min :: "timestamp list \<Rightarrow> error + timestamp" where
  "times_min tms = (case tms of [] \<Rightarrow> Inl ValueError | t # ts \<Rightarrow> Inr (fold min ts t))"

text \<open>
  \<^verbatim>\<open>arr.squeeze('lev')\<close> drops a dimension of length one and raises \<^verbatim>\<open>ValueError\<close>
  for any other length.
\<close>

definition squeeze_lev :: "field \<Rightarrow> error + field" where
  "squeeze_lev arr =
     (if arr_lev arr = Some 1 then Inr (arr\<lparr>arr_lev := None\<rparr>) else Inl ValueError)"

definition arr_scale :: "field \<Rightarrow> real \<Rightarrow> field" where
  "arr_scale arr scal = arr\<lparr>arr_values := map (\<lambda>x. x * scal) (arr_values arr)\<rparr>"

subsection \<open>Contours, polygons and the shapefile\<close>

type_synonym vertex = "real \<times> real"

datatype path = Path (vertices: "vertex list")

text \<open>
  A collection of matplotlib is an object: \<open>cid\<close> is its identity, which is what the
  dictionary of \<^verbatim>\<open>write_shapefile\<close> hashes.
\<close>

record collection =
  cid :: nat
  get_paths :: "path list"

record contour_set =
  collections :: "collection list"
  levels :: "real list"

datatype polygon = Polygon (shell: "vertex list")

record poly_entry =
  poly :: polygon
  props :: "(string \<times> real) list"

record feature =
  properties :: "(string \<times> real) list"
  geometry :: polygon

record schema =
  schema_geometry :: string
  schema_properties :: "(string \<times> string) list"

record feature_collection =
  fc_schema :: schema
  fc_features :: "feature list"

datatype figure =
    ContourFigure contour_set
  | FilledFigure string int "int list" "vertex list list"

subsection \<open>The libraries and the outside world\<close>

text \<open>
  What the libraries answer. \<open>shapely_accepts\<close> says whether \<^verbatim>\<open>geometry.Polygon\<close>
  builds a polygon from a coordinate sequence (it raises \<^verbatim>\<open>ValueError\<close> otherwise);
  \<open>fiona_write_ok path n\<close> says whether writing a record to \<open>path\<close> succeeds when \<open>n\<close>
  records are already in the file.
\<close>

record env =
  datetime_today :: timestamp
  strftime :: "timestamp \<Rightarrow> string \<Rightarrow> string"
  xr_open_dataset :: "string \<Rightarrow> error + dataset"
  xr_open_mfdataset :: "string \<Rightarrow> error + dataset"
  plt_contour :: "real list \<Rightarrow> real list \<Rightarrow> real list \<Rightarrow> real list \<Rightarrow> error + contour_set"
  plt_savefig_ok :: "string \<Rightarrow> bool"
  shapely_accepts :: "vertex list \<Rightarrow> bool"
  fiona_open_ok :: "string \<Rightarrow> bool"
  fiona_write_ok :: "string \<Rightarrow> nat \<Rightarrow> bool"

record world =
  shapefiles :: "string \<rightharpoonup> feature_collection"
  figures :: "(string \<times> figure) list"
  logs :: "(string \<times> string) list"

definition log_info :: "world \<Rightarrow> string \<Rightarrow> world" where
  "log_info w msg = w\<lparr>logs := logs w @ [(''INFO'', msg)]\<rparr>"


subsection \<open>read_nc\<close>

datatype vars_arg = Str string | StrList "string list"

text \<open>
  The loop \<^verbatim>\<open>for c,v in enumerate(vars)\<close>, run on the list of pairs \<open>enumerate 0 vars\<close>.
  \<open>arrs\<close> is \<open>None\<close> as long as the Python variable is not assigned.
\<close>

fun read_nc_loop :: "dataset \<Rightarrow> (nat \<times> string) list \<Rightarrow> data_array option \<Rightarrow> error + data_array option" where
  "read_nc_loop ds [] arrs = Inr arrs"
| "read_nc_loop ds ((c, v) # rest) arrs =
     (if c = 0
      then (case ds_getitem ds v of
              Inl e \<Rightarrow> Inl e
            | Inr a \<Rightarrow> read_nc_loop ds rest (Some a))
      else (case arrs of
              None \<Rightarrow> Inl (UnboundLocalError ''arrs'')
            | Some acc \<Rightarrow>
                (case ds_getitem ds v of
                   Inl e \<Rightarrow> Inl e
                 | Inr a \<Rightarrow> read_nc_loop ds rest (Some (da_add acc a)))))"

text \<open>The body of \<^verbatim>\<open>read_nc\<close> from line 49 on, once the dataset is open.\<close>

definition read_nc_open :: "dataset \<Rightarrow> timestamp \<Rightarrow> timestamp \<Rightarrow> vars_arg \<Rightarrow> real \<Rightarrow> string \<Rightarrow> error + (field \<times> timestamp)" where
  "read_nc_open ds0 start stop vars0 scal func =
     (let ds = (if length (ds_time ds0) > 1 then sel_time start stop ds0 else ds0);
          vars = (case vars0 of Str s \<Rightarrow> [s] | StrList vs \<Rightarrow> vs)
      in case read_nc_loop ds (enumerate 0 vars) None of
           Inl e \<Rightarrow> Inl e
         | Inr None \<Rightarrow> Inl (UnboundLocalError ''arrs'')
         | Inr (Some arrs) \<Rightarrow>
             (let tms = da_time arrs
              in case times_min tms of
                   Inl e \<Rightarrow> Inl e
                 | Inr m \<Rightarrow>
                     (let meantime = m + sum_list (map (\<lambda>t. t - m) tms) div int (length tms);
                          arr = None;
                          arr = (if func = ''mean'' then Some (da_reduce mean_time arrs) else arr);
                          arr = (if func = ''max'' then Some (da_reduce max_time arrs) else arr);
                          arr = (if func = ''min'' then Some (da_reduce min_time arrs) else arr)
                      in case arr of
                           None \<Rightarrow> Inl (UnboundLocalError ''arr'')
                         | Some arr \<Rightarrow>
                             (case (if arr_lev arr \<noteq> None then squeeze_lev arr else Inr arr) of
                                Inl e \<Rightarrow> Inl e
                              | Inr arr \<Rightarrow>
                                  (let arr = (if scal \<noteq> 1 then arr_scale arr scal else arr)
                                   in Inr (arr, meantime))))))"

definition read_nc :: "env \<Rightarrow> world \<Rightarrow> string \<Rightarrow> timestamp \<Rightarrow> timestamp \<Rightarrow> vars_arg \<Rightarrow> real \<Rightarrow> string \<Rightarrow> (error + (field \<times> timestamp)) \<times> world" where
  "read_nc env w0 ifile start stop vars scal func =
     (let ifile_parsed = strftime env start ifile;
          w = log_info w0 (''Reading '' @ ifile_parsed)
      in case (if CHR ''*'' \<in> set ifile
               then xr_open_mfdataset env ifile_parsed
               else xr_open_dataset env ifile_parsed) of
           Inl e \<Rightarrow> (Inl e, w)
         | Inr ds \<Rightarrow> (read_nc_open ds start stop vars scal func, w))"

subsection \<open>get_contours\<close>


subsection \<open>write_shapefile\<close>

text \<open>\<^verbatim>\<open>dict(...)\<close> of a list of pairs: a later pair replaces an earlier one with its key.\<close>

definition dict :: "('k \<times> 'v) list \<Rightarrow> ('k \<rightharpoonup> 'v)" where
  "dict kvs = fold (\<lambda>(k, v) m. m(k \<mapsto> v)) kvs Map.empty"

definition shapely_Polygon :: "env \<Rightarrow> vertex list \<Rightarrow> error + polygon" where
  "shapely_Polygon env coords =
     (if shapely_accepts env coords then Inr (Polygon coords) else Inl ValueError)"

text \<open>The inner loop \<^verbatim>\<open>for path in col.get_paths()\<close>; \<open>polylist\<close> is the list so far.\<close>

fun paths_loop :: "env \<Rightarrow> string \<Rightarrow> real \<Rightarrow> path list \<Rightarrow> poly_entry list \<Rightarrow> error + poly_entry list" where
  "paths_loop env propname z [] polylist = Inr polylist"
| "paths_loop env propname z (path # rest) polylist =
     (let v = vertices path;
          lons = map fst v;
          lats = map snd v
      in case shapely_Polygon env (map (\<lambda>i. (fst i, snd i)) (zip lons lats)) of
           Inl e \<Rightarrow> Inl e
         | Inr p \<Rightarrow>
             paths_loop env propname z rest
               (polylist @ [\<lparr>poly = p, props = [(propname, z)]\<rparr>]))"

text \<open>The outer loop \<^verbatim>\<open>for col in cs.collections\<close>; \<open>lvls\<close> is the dictionary.\<close>

fun collections_loop :: "env \<Rightarrow> string \<Rightarrow> (nat \<rightharpoonup> real) \<Rightarrow> collection list \<Rightarrow> poly_entry list \<Rightarrow> error + poly_entry list" where
  "collections_loop env propname lvls [] polylist = Inr polylist"
| "collections_loop env propname lvls (col # rest) polylist =
     (case lvls (cid col) of
        None \<Rightarrow> Inl (KeyError ''collection'')
      | Some z \<Rightarrow>
          (case paths_loop env propname z (get_paths col) polylist of
             Inl e \<Rightarrow> Inl e
           | Inr polylist' \<Rightarrow> collections_loop env propname lvls rest polylist'))"

text \<open>
  The loop \<^verbatim>\<open>for p in polylist: output.write(...)\<close> on the open collection. A record
  that is written is in the file; a write that fails raises and leaves the file as it is.
\<close>

fun write_loop :: "env \<Rightarrow> string \<Rightarrow> poly_entry list \<Rightarrow> feature_collection \<Rightarrow> (error + unit) \<times> feature_collection" where
  "write_loop env shapefile [] output = (Inr (), output)"
| "write_loop env shapefile (p # rest) output =
     (if fiona_write_ok env shapefile (length (fc_features output))
      then write_loop env shapefile rest
             (output\<lparr>fc_features := fc_features output
                                      @ [\<lparr>properties = props p, geometry = poly p\<rparr>]\<rparr>)
      else (Inl (OSError shapefile), output))"

text \<open>
  The list of polygons is complete before the file is opened. Opening in mode
  \<^verbatim>\<open>"w"\<close> creates the file at its final path, with the schema and no feature; leaving
  the \<^verbatim>\<open>with\<close> block closes the file, also when a write has raised.
\<close>

definition write_shapefile :: "env \<Rightarrow> world \<Rightarrow> contour_set \<Rightarrow> string \<Rightarrow> string option \<Rightarrow> (error + unit) \<times> world" where
  "write_shapefile env w cs propname shapefile0 =
     (let lvls = dict (zip (map cid (collections cs)) (levels cs))
      in case collections_loop env propname lvls (collections cs) [] of
           Inl e \<Rightarrow> (Inl e, w)
         | Inr polylist \<Rightarrow>
             (let sch = \<lparr>schema_geometry = ''Polygon'',
                        schema_properties = [(propname, ''float'')]\<rparr>
              in case shapefile0 of
                   None \<Rightarrow> (Inl TypeError, w)
                 | Some shapefile \<Rightarrow>
                     if \<not> fiona_open_ok env shapefile then (Inl (OSError shapefile), w)
                     else
                       (case write_loop env shapefile polylist
                               \<lparr>fc_schema = sch, fc_features = []\<rparr> of
                          (Inl e, output) \<Rightarrow>
                            (Inl e, w\<lparr>shapefiles := (shapefiles w)(shapefile \<mapsto> output)\<rparr>)
                        | (Inr u, output) \<Rightarrow>
                            (Inr (),
                             log_info (w\<lparr>shapefiles := (shapefiles w)(shapefile \<mapsto> output)\<rparr>)
                               (''Shapefile written to file '' @ shapefile)))))"

subsection \<open>read_shapefile_and_plot_filled_contour\<close>




subsection \<open>main\<close>



section \<open>Notions used to state the properties\<close>

subsection \<open>Features, rings and levels\<close>

text \<open>
  \<open>polygon_feature\<close> is the feature of one ring at one level, \<open>ring_features\<close> the
  features of all rings of all collections, each collection paired with the level at its
  position. \<open>rings_at\<close> are the rings that extraction reports for a level and
  \<open>features_at\<close> the features that carry a level. A ring is \<open>degenerate\<close> when it has
  fewer than three distinct vertices or encloses no area (\<open>twice_area\<close> is the shoelace
  sum, twice the signed area).
\<close>

definition polygon_feature :: "string \<Rightarrow> real \<Rightarrow> path \<Rightarrow> feature" where
  "polygon_feature propname z p = \<lparr>properties = [(propname, z)], geometry = Polygon (vertices p)\<rparr>"

definition ring_features :: "string \<Rightarrow> collection list \<Rightarrow> real list \<Rightarrow> feature list" where
  "ring_features propname cols zs =
     concat (map (\<lambda>(col, z). map (polygon_feature propname z) (get_paths col)) (zip cols zs))"

definition to_feature :: "poly_entry \<Rightarrow> feature" where
  "to_feature p = \<lparr>properties = props p, geometry = poly p\<rparr>"

definition ring_entry :: "string \<Rightarrow> real \<Rightarrow> path \<Rightarrow> poly_entry" where
  "ring_entry propname z p = \<lparr>poly = Polygon (vertices p), props = [(propname, z)]\<rparr>"

definition all_accepted :: "env \<Rightarrow> contour_set \<Rightarrow> bool" where
  "all_accepted env cs \<longleftrightarrow>
     (\<forall>col\<in>set (collections cs). \<forall>p\<in>set (get_paths col). shapely_accepts env (vertices p))"

definition shp_schema :: "string \<Rightarrow> schema" where
  "shp_schema propname = \<lparr>schema_geometry = ''Polygon'', schema_properties = [(propname, ''float'')]\<rparr>"


definition features_at :: "string \<Rightarrow> real \<Rightarrow> feature list \<Rightarrow> feature list" where
  "features_at propname z fs = filter (\<lambda>f. properties f = [(propname, z)]) fs"

definition twice_area :: "vertex list \<Rightarrow> real" where
  "twice_area vs = (\<Sum>(p, q) \<leftarrow> zip vs (rotate1 vs). fst p * snd q - fst q * snd p)"

definition degenerate :: "vertex list \<Rightarrow> bool" where
  "degenerate vs \<longleftrightarrow> length (remdups vs) < 3 \<or> twice_area vs = 0"


subsection \<open>Example inputs\<close>

text \<open>
  A dataset of two samples on a grid of four cells, a contour set of three levels, and
  libraries that answer without failure.
\<close>

definition example_ds :: dataset where
  "example_ds =
     \<lparr>ds_time = [ymd2ord 2020 1 1 * day_ns + hour_ns, ymd2ord 2020 1 1 * day_ns + 3 * hour_ns],
      ds_lon = [0, 1], ds_lat = [0, 1], ds_lev = None,
      ds_vars = [''pm25'' \<mapsto> [[10, 30], [20, 40], [0, 0], [5, 15]],
                 ''dust'' \<mapsto> [[1, 1], [2, 2], [3, 3], [4, 4]]]\<rparr>"

definition example_cs :: contour_set where
  "example_cs =
     \<lparr>collections =
        [\<lparr>cid = 1, get_paths = [Path [(0, 0), (1, 0), (1, 1), (0, 1), (0, 0)],
                                 Path [(2, 2), (3, 2), (3, 3), (2, 2)]]\<rparr>,
         \<lparr>cid = 2, get_paths = []\<rparr>,
         \<lparr>cid = 3, get_paths = [Path [(0, 0), (1, 0), (0, 1)]]\<rparr>],
      levels = [10, 25, 30]\<rparr>"

definition example_env :: env where
  "example_env =
     \<lparr>datetime_today = ymd2ord 2020 1 2 * day_ns + 9 * hour_ns,
      strftime = (\<lambda>t s. s),
      xr_open_dataset = (\<lambda>p. Inr example_ds),
      xr_open_mfdataset = (\<lambda>p. Inl (OSError p)),
      plt_contour = (\<lambda>lon lat vals ls. Inr (example_cs\<lparr>levels := ls\<rparr>)),
      plt_savefig_ok = (\<lambda>p. True),
      shapely_accepts = (\<lambda>coords. 3 \<le> length coords),
      fiona_open_ok = (\<lambda>p. True),
      fiona_write_ok = (\<lambda>p n. True)\<rparr>"

definition example_world :: world where
  "example_world = \<lparr>shapefiles = Map.empty, figures = [], logs = []\<rparr>"


text \<open>A contour set whose only ring runs over two points.\<close>

definition thin_cs :: contour_set where
  "thin_cs =
     \<lparr>collections = [\<lparr>cid = 1, get_paths = [Path [(0, 0), (1, 1), (0, 0), (1, 1)]]\<rparr>],
      levels = [10]\<rparr>"


text \<open>
  A contour set of two levels without rings.
\<close>

definition empty_cs :: contour_set where
  "empty_cs = \<lparr>collections = [\<lparr>cid = 1, get_paths = []\<rparr>, \<lparr>cid = 2, get_paths = []\<rparr>],
               levels = [100, 200]\<rparr>"

subsection \<open>The selector\<close>

text \<open>
  \<open>var_names\<close> is the list of requested variables, \<open>opened\<close> the dataset that one of
  the two opening routines answers, and \<open>windowed\<close> the dataset that the reducer sees:
  sliced to the window when the source has more than one sample. \<open>summed_sample ds vs i j\<close>
  is the sum over the variables \<open>vs\<close> of the value at cell \<open>i\<close> and sample \<open>j\<close>;
  \<open>time_reducer\<close> is the arithmetic mean, the maximum or the minimum of a series;
  \<open>aggregated\<close> is, cell by cell, the reducer of the summed samples times the scale
  factor. \<open>wf_vars ds vs n\<close> says that the variables \<open>vs\<close> are in the dataset, each with
  \<open>n\<close> cells and one value for each time of the time axis.
\<close>

definition var_names :: "vars_arg \<Rightarrow> string list" where
  "var_names vars = (case vars of Str s \<Rightarrow> [s] | StrList vs \<Rightarrow> vs)"

definition windowed :: "dataset \<Rightarrow> timestamp \<Rightarrow> timestamp \<Rightarrow> dataset" where
  "windowed ds start stop = (if 1 < length (ds_time ds) then sel_time start stop ds else ds)"

definition opened :: "env \<Rightarrow> string \<Rightarrow> timestamp \<Rightarrow> error + dataset" where
  "opened env ifile start =
     (if CHR ''*'' \<in> set ifile then xr_open_mfdataset env (strftime env start ifile)
      else xr_open_dataset env (strftime env start ifile))"





text \<open>
  The array \<^verbatim>\<open>ds[v]\<close> of a variable that the dataset has.
\<close>

definition get_array :: "dataset \<Rightarrow> string \<Rightarrow> data_array" where
  "get_array ds v =
     \<lparr>da_time = ds_time ds, da_lon = ds_lon ds, da_lat = ds_lat ds, da_lev = ds_lev ds,
      da_values = the (ds_vars ds v)\<rparr>"


text \<open>
  The value of \<^verbatim>\<open>arr\<close> after the three tests on \<^verbatim>\<open>func\<close>: \<open>None\<close> when none of them
  has assigned it.
\<close>

definition reduced :: "string \<Rightarrow> data_array \<Rightarrow> field option" where
  "reduced func arrs =
     (if func = ''min'' then Some (da_reduce min_time arrs)
      else if func = ''max'' then Some (da_reduce max_time arrs)
      else if func = ''mean'' then Some (da_reduce mean_time arrs)
      else None)"

text \<open>
  A dataset with a single sample, of 2019-06-01.
\<close>

definition single_ds :: dataset where
  "single_ds =
     \<lparr>ds_time = [ymd2ord 2019 6 1 * day_ns],
      ds_lon = [0, 1], ds_lat = [0, 1], ds_lev = None,
      ds_vars = [''pm25'' \<mapsto> [[10], [20], [0], [5]]]\<rparr>"




section \<open>Properties\<close>

subsection \<open>The analysis window\<close>

lemma day_ns_pos: "0 < day_ns" by (simp add: day_ns_def hour_ns_def)

lemma datetime_midnight:
  "datetime year month day 0 0 0 = Inr start \<longleftrightarrow>
     (MINYEAR \<le> year \<and> year \<le> MAXYEAR \<and> 1 \<le> month \<and> month \<le> 12
      \<and> 1 \<le> day \<and> day \<le> days_in_month year month
      \<and> start = ymd2ord year month day * day_ns)"
  by (auto simp: datetime_def)

lemma datetime_error:
  "datetime year month day 0 0 0 = Inl e \<Longrightarrow> e = ValueError"
  by (auto simp: datetime_def split: if_splits)

lemma dt_add_Inr:
  "dt_add t delta = Inr r \<longleftrightarrow>
     (r = t + delta \<and> 0 < toordinal (t + delta) \<and> toordinal (t + delta) \<le> MAXORDINAL)"
  by (auto simp: dt_add_def Let_def)

lemma dt_add_Inl:
  "dt_add t delta = Inl e \<longleftrightarrow>
     (e = OverflowError \<and> \<not> (0 < toordinal (t + delta) \<and> toordinal (t + delta) \<le> MAXORDINAL))"
  by (auto simp: dt_add_def Let_def)

lemma datetime_midnight_Inl:
  "datetime year month day 0 0 0 = Inl e \<longleftrightarrow>
     (e = ValueError \<and> \<not> (MINYEAR \<le> year \<and> year \<le> MAXYEAR \<and> 1 \<le> month \<and> month \<le> 12
      \<and> 1 \<le> day \<and> day \<le> days_in_month year month))"
  by (auto simp: datetime_def)

lemma midnight_iff:
  "s mod day_ns = 0 \<and> toordinal s = k \<longleftrightarrow> s = k * day_ns"
  using day_ns_pos by (auto simp: toordinal_def)

lemma get_analysis_date_Inr:
  "get_analysis_date now year month day time_window = Inr (start, stop) \<longleftrightarrow>
     (let today = now - day_ns;
          y = (case year of Some v \<Rightarrow> v | None \<Rightarrow> dt_year today);
          m = (case month of Some v \<Rightarrow> v | None \<Rightarrow> dt_month today);
          d = (case day of Some v \<Rightarrow> v | None \<Rightarrow> dt_day today)
      in 0 < toordinal today \<and> toordinal today \<le> MAXORDINAL
         \<and> MINYEAR \<le> y \<and> y \<le> MAXYEAR \<and> 1 \<le> m \<and> m \<le> 12 \<and> 1 \<le> d \<and> d \<le> days_in_month y m
         \<and> start = ymd2ord y m d * day_ns
         \<and> stop = start + time_window * hour_ns
         \<and> 0 < toordinal stop \<and> toordinal stop \<le> MAXORDINAL)"
  unfolding get_analysis_date_def Let_def
  by (auto simp: dt_add_Inr dt_add_Inl datetime_midnight datetime_midnight_Inl
             timedelta_days_def timedelta_hours_def
           split: sum.splits)

text \<open>
  The two calendar functions are inverse on the dates of the calendar: the day number
  of a valid date converts back to that date. The proof follows the digits of the year
  in the cycles of 400, 100 and 4 years and, month by month, the estimate of the month
  that Python makes from the day of the year.
\<close>

lemma month_1:
  fixes d r :: int and L :: bool
  assumes d: "1 \<le> d" "d \<le> 31"
    and r: "r = 0 + d - 1"
  shows "(let month = (r + 50) div 32;
              preceding = DAYS_BEFORE_MONTH ! nat month + (if month > 2 \<and> L then 1 else 0)
          in if preceding > r
             then
               let month = month - 1;
                   preceding = preceding
                               - (DAYS_IN_MONTH ! nat month + (if month = 2 \<and> L then 1 else 0))
               in (Y, month, r - preceding + 1)
             else (Y, month, r - preceding + 1)) = (Y, 1, d)"
proof -
  note tables = DAYS_IN_MONTH_def DAYS_BEFORE_MONTH_def
  from d r have e: "(r + 50) div 32 = 1 \<or> (r + 50) div 32 = 2"
    by (cases L) (simp_all, arith+)
  then show ?thesis
  proof
    assume a: "(r + 50) div 32 = 1"
    then show ?thesis using d r by (cases L) (simp_all add: Let_def tables)
  next
    assume a: "(r + 50) div 32 = 2"
    then have "64 \<le> r + 50" by arith
    with a show ?thesis using d r by (cases L) (simp_all add: Let_def tables)
  qed
qed

lemma month_2:
  fixes d r :: int and L :: bool
  assumes d: "1 \<le> d" "d \<le> (if L then 29 else 28)"
    and r: "r = 31 + d - 1"
  shows "(let month = (r + 50) div 32;
              preceding = DAYS_BEFORE_MONTH ! nat month + (if month > 2 \<and> L then 1 else 0)
          in if preceding > r
             then
               let month = month - 1;
                   preceding = preceding
                               - (DAYS_IN_MONTH ! nat month + (if month = 2 \<and> L then 1 else 0))
               in (Y, month, r - preceding + 1)
             else (Y, month, r - preceding + 1)) = (Y, 2, d)"
proof -
  note tables = DAYS_IN_MONTH_def DAYS_BEFORE_MONTH_def
  from d r have e: "(r + 50) div 32 = 2 \<or> (r + 50) div 32 = 3"
    by (cases L) (simp_all, arith+)
  then show ?thesis
  proof
    assume a: "(r + 50) div 32 = 2"
    then show ?thesis using d r by (cases L) (simp_all add: Let_def tables)
  next
    assume a: "(r + 50) div 32 = 3"
    then have "96 \<le> r + 50" by arith
    with a show ?thesis using d r by (cases L) (simp_all add: Let_def tables)
  qed
qed

lemma month_3:
  fixes d r :: int and L :: bool
  assumes d: "1 \<le> d" "d \<le> 31"
    and r: "r = 59 + (if L then 1 else 0) + d - 1"
  shows "(let month = (r + 50) div 32;
              preceding = DAYS_BEFORE_MONTH ! nat month + (if month > 2 \<and> L then 1 else 0)
          in if preceding > r
             then
               let month = month - 1;
                   preceding = preceding
                               - (DAYS_IN_MONTH ! nat month + (if month = 2 \<and> L then 1 else 0))
               in (Y, month, r - preceding + 1)
             else (Y, month, r - preceding + 1)) = (Y, 3, d)"
proof -
  note tables = DAYS_IN_MONTH_def DAYS_BEFORE_MONTH_def
  from d r have e: "(r + 50) div 32 = 3 \<or> (r + 50) div 32 = 4"
    by (cases L) (simp_all, arith+)
  then show ?thesis
  proof
    assume a: "(r + 50) div 32 = 3"
    then show ?thesis using d r by (cases L) (simp_all add: Let_def tables)
  next
    assume a: "(r + 50) div 32 = 4"
    then have "128 \<le> r + 50" by arith
    with a show ?thesis using d r by (cases L) (simp_all add: Let_def tables)
  qed
qed

lemma month_4:
  fixes d r :: int and L :: bool
  assumes d: "1 \<le> d" "d \<le> 30"
    and r: "r = 90 + (if L then 1 else 0) + d - 1"
  shows "(let month = (r + 50) div 32;
              preceding = DAYS_BEFORE_MONTH ! nat month + (if month > 2 \<and> L then 1 else 0)
          in if preceding > r
             then
               let month = month - 1;
                   preceding = preceding
                               - (DAYS_IN_MONTH ! nat month + (if month = 2 \<and> L then 1 else 0))
               in (Y, month, r - preceding + 1)
             else (Y, month, r - preceding + 1)) = (Y, 4, d)"
proof -
  note tables = DAYS_IN_MONTH_def DAYS_BEFORE_MONTH_def
  from d r have e: "(r + 50) div 32 = 4 \<or> (r + 50) div 32 = 5"
    by (cases L) (simp_all, arith+)
  then show ?thesis
  proof
    assume a: "(r + 50) div 32 = 4"
    then show ?thesis using d r by (cases L) (simp_all add: Let_def tables)
  next
    assume a: "(r + 50) div 32 = 5"
    then have "160 \<le> r + 50" by arith
    with a show ?thesis using d r by (cases L) (simp_all add: Let_def tables)
  qed
qed

lemma month_5:
  fixes d r :: int and L :: bool
  assumes d: "1 \<le> d" "d \<le> 31"
    and r: "r = 120 + (if L then 1 else 0) + d - 1"
  shows "(let month = (r + 50) div 32;
              preceding = DAYS_BEFORE_MONTH ! nat month + (if month > 2 \<and> L then 1 else 0)
          in if preceding > r
             then
               let month = month - 1;
                   preceding = preceding
                               - (DAYS_IN_MONTH ! nat month + (if month = 2 \<and> L then 1 else 0))
               in (Y, month, r - preceding + 1)
             else (Y, month, r - preceding + 1)) = (Y, 5, d)"
proof -
  note tables = DAYS_IN_MONTH_def DAYS_BEFORE_MONTH_def
  from d r have e: "(r + 50) div 32 = 5 \<or> (r + 50) div 32 = 6"
    by (cases L) (simp_all, arith+)
  then show ?thesis
  proof
    assume a: "(r + 50) div 32 = 5"
    then show ?thesis using d r by (cases L) (simp_all add: Let_def tables)
  next
    assume a: "(r + 50) div 32 = 6"
    then have "192 \<le> r + 50" by arith
    with a show ?thesis using d r by (cases L) (simp_all add: Let_def tables)
  qed
qed

lemma month_6:
  fixes d r :: int and L :: bool
  assumes d: "1 \<le> d" "d \<le> 30"
    and r: "r = 151 + (if L then 1 else 0) + d - 1"
  shows "(let month = (r + 50) div 32;
              preceding = DAYS_BEFORE_MONTH ! nat month + (if month > 2 \<and> L then 1 else 0)
          in if preceding > r
             then
               let month = month - 1;
                   preceding = preceding
                               - (DAYS_IN_MONTH ! nat month + (if month = 2 \<and> L then 1 else 0))
               in (Y, month, r - preceding + 1)
             else (Y, month, r - preceding + 1)) = (Y, 6, d)"
proof -
  note tables = DAYS_IN_MONTH_def DAYS_BEFORE_MONTH_def
  from d r have e: "(r + 50) div 32 = 6 \<or> (r + 50) div 32 = 7"
    by (cases L) (simp_all, arith+)
  then show ?thesis
  proof
    assume a: "(r + 50) div 32 = 6"
    then show ?thesis using d r by (cases L) (simp_all add: Let_def tables)
  next
    assume a: "(r + 50) div 32 = 7"
    then have "224 \<le> r + 50" by arith
    with a show ?thesis using d r by (cases L) (simp_all add: Let_def tables)
  qed
qed

lemma month_7:
  fixes d r :: int and L :: bool
  assumes d: "1 \<le> d" "d \<le> 31"
    and r: "r = 181 + (if L then 1 else 0) + d - 1"
  shows "(let month = (r + 50) div 32;
              preceding = DAYS_BEFORE_MONTH ! nat month + (if month > 2 \<and> L then 1 else 0)
          in if preceding > r
             then
               let month = month - 1;
                   preceding = preceding
                               - (DAYS_IN_MONTH ! nat month + (if month = 2 \<and> L then 1 else 0))
               in (Y, month, r - preceding + 1)
             else (Y, month, r - preceding + 1)) = (Y, 7, d)"
proof -
  note tables = DAYS_IN_MONTH_def DAYS_BEFORE_MONTH_def
  from d r have e: "(r + 50) div 32 = 7 \<or> (r + 50) div 32 = 8"
    by (cases L) (simp_all, arith+)
  then show ?thesis
  proof
    assume a: "(r + 50) div 32 = 7"
    then show ?thesis using d r by (cases L) (simp_all add: Let_def tables)
  next
    assume a: "(r + 50) div 32 = 8"
    then have "256 \<le> r + 50" by arith
    with a show ?thesis using d r by (cases L) (simp_all add: Let_def tables)
  qed
qed

lemma month_8:
  fixes d r :: int and L :: bool
  assumes d: "1 \<le> d" "d \<le> 31"
    and r: "r = 212 + (if L then 1 else 0) + d - 1"
  shows "(let month = (r + 50) div 32;
              preceding = DAYS_BEFORE_MONTH ! nat month + (if month > 2 \<and> L then 1 else 0)
          in if preceding > r
             then
               let month = month - 1;
                   preceding = preceding
                               - (DAYS_IN_MONTH ! nat month + (if month = 2 \<and> L then 1 else 0))
               in (Y, month, r - preceding + 1)
             else (Y, month, r - preceding + 1)) = (Y, 8, d)"
proof -
  note tables = DAYS_IN_MONTH_def DAYS_BEFORE_MONTH_def
  from d r have e: "(r + 50) div 32 = 8 \<or> (r + 50) div 32 = 9"
    by (cases L) (simp_all, arith+)
  then show ?thesis
  proof
    assume a: "(r + 50) div 32 = 8"
    then show ?thesis using d r by (cases L) (simp_all add: Let_def tables)
  next
    assume a: "(r + 50) div 32 = 9"
    then have "288 \<le> r + 50" by arith
    with a show ?thesis using d r by (cases L) (simp_all add: Let_def tables)
  qed
qed

lemma month_9:
  fixes d r :: int and L :: bool
  assumes d: "1 \<le> d" "d \<le> 30"
    and r: "r = 243 + (if L then 1 else 0) + d - 1"
  shows "(let month = (r + 50) div 32;
              preceding = DAYS_BEFORE_MONTH ! nat month + (if month > 2 \<and> L then 1 else 0)
          in if preceding > r
             then
               let month = month - 1;
                   preceding = preceding
                               - (DAYS_IN_MONTH ! nat month + (if month = 2 \<and> L then 1 else 0))
               in (Y, month, r - preceding + 1)
             else (Y, month, r - preceding + 1)) = (Y, 9, d)"
proof -
  note tables = DAYS_IN_MONTH_def DAYS_BEFORE_MONTH_def
  from d r have e: "(r + 50) div 32 = 9 \<or> (r + 50) div 32 = 10"
    by (cases L) (simp_all, arith+)
  then show ?thesis
  proof
    assume a: "(r + 50) div 32 = 9"
    then show ?thesis using d r by (cases L) (simp_all add: Let_def tables)
  next
    assume a: "(r + 50) div 32 = 10"
    then have "320 \<le> r + 50" by arith
    with a show ?thesis using d r by (cases L) (simp_all add: Let_def tables)
  qed
qed

lemma month_10:
  fixes d r :: int and L :: bool
  assumes d: "1 \<le> d" "d \<le> 31"
    and r: "r = 273 + (if L then 1 else 0) + d - 1"
  shows "(let month = (r + 50) div 32;
              preceding = DAYS_BEFORE_MONTH ! nat month + (if month > 2 \<and> L then 1 else 0)
          in if preceding > r
             then
               let month = month - 1;
                   preceding = preceding
                               - (DAYS_IN_MONTH ! nat month + (if month = 2 \<and> L then 1 else 0))
               in (Y, month, r - preceding + 1)
             else (Y, month, r - preceding + 1)) = (Y, 10, d)"
proof -
  note tables = DAYS_IN_MONTH_def DAYS_BEFORE_MONTH_def
  from d r have e: "(r + 50) div 32 = 10 \<or> (r + 50) div 32 = 11"
    by (cases L) (simp_all, arith+)
  then show ?thesis
  proof
    assume a: "(r + 50) div 32 = 10"
    then show ?thesis using d r by (cases L) (simp_all add: Let_def tables)
  next
    assume a: "(r + 50) div 32 = 11"
    then have "352 \<le> r + 50" by arith
    with a show ?thesis using d r by (cases L) (simp_all add: Let_def tables)
  qed
qed

lemma month_11:
  fixes d r :: int and L :: bool
  assumes d: "1 \<le> d" "d \<le> 30"
    and r: "r = 304 + (if L then 1 else 0) + d - 1"
  shows "(let month = (r + 50) div 32;
              preceding = DAYS_BEFORE_MONTH ! nat month + (if month > 2 \<and> L then 1 else 0)
          in if preceding > r
             then
               let month = month - 1;
                   preceding = preceding
                               - (DAYS_IN_MONTH ! nat month + (if month = 2 \<and> L then 1 else 0))
               in (Y, month, r - preceding + 1)
             else (Y, month, r - preceding + 1)) = (Y, 11, d)"
proof -
  note tables = DAYS_IN_MONTH_def DAYS_BEFORE_MONTH_def
  from d r have e: "(r + 50) div 32 = 11 \<or> (r + 50) div 32 = 12"
    by (cases L) (simp_all, arith+)
  then show ?thesis
  proof
    assume a: "(r + 50) div 32 = 11"
    then show ?thesis using d r by (cases L) (simp_all add: Let_def tables)
  next
    assume a: "(r + 50) div 32 = 12"
    then have "384 \<le> r + 50" by arith
    with a show ?thesis using d r by (cases L) (simp_all add: Let_def tables)
  qed
qed

lemma month_12:
  fixes d r :: int and L :: bool
  assumes d: "1 \<le> d" "d \<le> 31"
    and r: "r = 334 + (if L then 1 else 0) + d - 1"
  shows "(let month = (r + 50) div 32;
              preceding = DAYS_BEFORE_MONTH ! nat month + (if month > 2 \<and> L then 1 else 0)
          in if preceding > r
             then
               let month = month - 1;
                   preceding = preceding
                               - (DAYS_IN_MONTH ! nat month + (if month = 2 \<and> L then 1 else 0))
               in (Y, month, r - preceding + 1)
             else (Y, month, r - preceding + 1)) = (Y, 12, d)"
proof -
  note tables = DAYS_IN_MONTH_def DAYS_BEFORE_MONTH_def
  from d r have a: "(r + 50) div 32 = 12"
    by (cases L) simp_all
  then show ?thesis using d r by (cases L) (simp_all add: Let_def tables)
qed

lemma month_day_tail:
  fixes m d r :: int and L :: bool
  assumes m: "1 \<le> m" "m \<le> 12"
    and d: "1 \<le> d" "d \<le> (if m = 2 \<and> L then 29 else DAYS_IN_MONTH ! nat m)"
    and r: "r = DAYS_BEFORE_MONTH ! nat m + (if m > 2 \<and> L then 1 else 0) + d - 1"
  shows "(let month = (r + 50) div 32;
              preceding = DAYS_BEFORE_MONTH ! nat month + (if month > 2 \<and> L then 1 else 0)
          in if preceding > r
             then
               let month = month - 1;
                   preceding = preceding
                               - (DAYS_IN_MONTH ! nat month + (if month = 2 \<and> L then 1 else 0))
               in (Y, month, r - preceding + 1)
             else (Y, month, r - preceding + 1)) = (Y, m, d)"
proof -
  note tables = DAYS_IN_MONTH_def DAYS_BEFORE_MONTH_def
  from m have "m = 1 \<or> m = 2 \<or> m = 3 \<or> m = 4 \<or> m = 5 \<or> m = 6 \<or> m = 7 \<or> m = 8
      \<or> m = 9 \<or> m = 10 \<or> m = 11 \<or> m = 12" by arith
  then show ?thesis
  proof (elim disjE)
    assume mm: "m = 1"
    show ?thesis unfolding mm
      by (rule month_1) (use d [unfolded mm] r [unfolded mm] in \<open>auto simp: tables split: if_splits\<close>)
  next
    assume mm: "m = 2"
    show ?thesis unfolding mm
      by (rule month_2) (use d [unfolded mm] r [unfolded mm] in \<open>auto simp: tables split: if_splits\<close>)
  next
    assume mm: "m = 3"
    show ?thesis unfolding mm
      by (rule month_3) (use d [unfolded mm] r [unfolded mm] in \<open>auto simp: tables split: if_splits\<close>)
  next
    assume mm: "m = 4"
    show ?thesis unfolding mm
      by (rule month_4) (use d [unfolded mm] r [unfolded mm] in \<open>auto simp: tables split: if_splits\<close>)
  next
    assume mm: "m = 5"
    show ?thesis unfolding mm
      by (rule month_5) (use d [unfolded mm] r [unfolded mm] in \<open>auto simp: tables split: if_splits\<close>)
  next
    assume mm: "m = 6"
    show ?thesis unfolding mm
      by (rule month_6) (use d [unfolded mm] r [unfolded mm] in \<open>auto simp: tables split: if_splits\<close>)
  next
    assume mm: "m = 7"
    show ?thesis unfolding mm
      by (rule month_7) (use d [unfolded mm] r [unfolded mm] in \<open>auto simp: tables split: if_splits\<close>)
  next
    assume mm: "m = 8"
    show ?thesis unfolding mm
      by (rule month_8) (use d [unfolded mm] r [unfolded mm] in \<open>auto simp: tables split: if_splits\<close>)
  next
    assume mm: "m = 9"
    show ?thesis unfolding mm
      by (rule month_9) (use d [unfolded mm] r [unfolded mm] in \<open>auto simp: tables split: if_splits\<close>)
  next
    assume mm: "m = 10"
    show ?thesis unfolding mm
      by (rule month_10) (use d [unfolded mm] r [unfolded mm] in \<open>auto simp: tables split: if_splits\<close>)
  next
    assume mm: "m = 11"
    show ?thesis unfolding mm
      by (rule month_11) (use d [unfolded mm] r [unfolded mm] in \<open>auto simp: tables split: if_splits\<close>)
  next
    assume mm: "m = 12"
    show ?thesis unfolding mm
      by (rule month_12) (use d [unfolded mm] r [unfolded mm] in \<open>auto simp: tables split: if_splits\<close>)
  qed
qed

lemma digit:
  fixes x q B :: int
  assumes "0 \<le> x" "x < B"
  shows "(B * q + x) div B = q" "(B * q + x) mod B = x"
  using assms by (simp_all add: div_pos_pos_trivial mod_pos_pos_trivial)

lemma ord2ymd_digits:
  fixes a q100 q4 q1 k :: int
  assumes k: "0 \<le> k" "k < 365"
    and q1: "0 \<le> q1" "365 * q1 + k < 1461"
    and q4: "0 \<le> q4" "1461 * q4 + (365 * q1 + k) < 36524"
    and q100: "0 \<le> q100" "36524 * q100 + (1461 * q4 + (365 * q1 + k)) < 146097"
    and n0: "n0 - 1 = 146097 * a + (36524 * q100 + (1461 * q4 + (365 * q1 + k)))"
  shows "ord2ymd n0 =
     (let year = a * 400 + 1 + q100 * 100 + q4 * 4 + q1
      in if q1 = 4 \<or> q100 = 4 then (year - 1, 12, 31)
         else
           let leapyear = (q1 = 3 \<and> (q4 \<noteq> 24 \<or> q100 = 3));
               month = (k + 50) div 32;
               preceding = DAYS_BEFORE_MONTH ! nat month
                           + (if month > 2 \<and> leapyear then 1 else 0)
           in if preceding > k
              then
                let month = month - 1;
                    preceding = preceding
                                - (DAYS_IN_MONTH ! nat month
                                   + (if month = 2 \<and> leapyear then 1 else 0))
                in (year, month, k - preceding + 1)
              else (year, month, k - preceding + 1))"
proof -
  define X3 where "X3 = 365 * q1 + k"
  define X2 where "X2 = 1461 * q4 + X3"
  define X where "X = 36524 * q100 + X2"
  have b3: "0 \<le> X3" "X3 < 1461" using k q1 by (simp_all add: X3_def)
  have b2: "0 \<le> X2" "X2 < 36524" using b3 q4 by (simp_all add: X2_def X3_def)
  have b1: "0 \<le> X" "X < 146097" using b2 q100 by (simp_all add: X_def X2_def X3_def)
  have f1: "(n0 - 1) div 146097 = a" "(n0 - 1) mod 146097 = X"
    using digit [OF b1, of a] n0 by (simp_all add: X_def X2_def X3_def)
  have f2: "X div 36524 = q100" "X mod 36524 = X2"
    using digit [OF b2, of q100] by (simp_all add: X_def)
  have f3: "X2 div 1461 = q4" "X2 mod 1461 = X3"
    using digit [OF b3, of q4] by (simp_all add: X2_def)
  have f4: "X3 div 365 = q1" "X3 mod 365 = k"
    using digit [OF k, of q1] by (simp_all add: X3_def)
  show ?thesis
    unfolding ord2ymd_def Let_def f1 f2 f3 f4 ..
qed

lemma year_digits:
  fixes y1 :: int
  assumes "0 \<le> y1"
  obtains a b c e where "y1 = 400 * a + 100 * b + 4 * c + e"
    "0 \<le> a" "0 \<le> b" "b \<le> 3" "0 \<le> c" "c \<le> 24" "0 \<le> e" "e \<le> 3"
proof -
  define a where "a = y1 div 400"
  define r400 where "r400 = y1 mod 400"
  define b where "b = r400 div 100"
  define r100 where "r100 = r400 mod 100"
  define c where "c = r100 div 4"
  define e where "e = r100 mod 4"
  have 1: "y1 = 400 * a + r400" "0 \<le> r400" "r400 < 400"
    unfolding a_def r400_def by simp_all
  have 2: "r400 = 100 * b + r100" "0 \<le> r100" "r100 < 100"
    unfolding b_def r100_def by simp_all
  have 3: "r100 = 4 * c + e" "0 \<le> e" "e < 4"
    unfolding c_def e_def by simp_all
  have "0 \<le> a" using assms unfolding a_def by simp
  moreover have "y1 = 400 * a + 100 * b + 4 * c + e" using 1 2 3 by simp
  moreover have "0 \<le> b" "b \<le> 3" "0 \<le> c" "c \<le> 24" "0 \<le> e" "e \<le> 3"
    using 1 2 3 by arith+
  ultimately show ?thesis using that by blast
qed

lemma days_before_year_digits:
  fixes a b c e :: int
  assumes "y - 1 = 400 * a + 100 * b + 4 * c + e"
    "0 \<le> b" "b \<le> 3" "0 \<le> c" "c \<le> 24" "0 \<le> e" "e \<le> 3"
  shows "days_before_year y = 146097 * a + 36524 * b + 1461 * c + 365 * e"
proof -
  have d4: "(y - 1) div 4 = 100 * a + 25 * b + c"
    by (rule int_div_pos_eq [where r = e]) (use assms in simp_all)
  have d100: "(y - 1) div 100 = 4 * a + b"
    by (rule int_div_pos_eq [where r = "4 * c + e"]) (use assms in simp_all)
  have d400: "(y - 1) div 400 = a"
    by (rule int_div_pos_eq [where r = "100 * b + 4 * c + e"]) (use assms in simp_all)
  show ?thesis
    unfolding days_before_year_def Let_def d4 d100 d400 using assms(1) by simp
qed

lemma is_leap_digits:
  fixes a b c e :: int
  assumes "y - 1 = 400 * a + 100 * b + 4 * c + e"
    "0 \<le> b" "b \<le> 3" "0 \<le> c" "c \<le> 24" "0 \<le> e" "e \<le> 3"
  shows "is_leap y \<longleftrightarrow> e = 3 \<and> (c \<noteq> 24 \<or> b = 3)"
proof -
  have y: "y = 400 * a + 100 * b + 4 * c + e + 1" using assms(1) by simp
  have m4: "y mod 4 = (if e = 3 then 0 else e + 1)"
  proof (cases "e = 3")
    case True
    have "y mod 4 = 0"
      by (rule int_mod_pos_eq [where q = "100 * a + 25 * b + c + 1"]) (use y True in simp_all)
    with True show ?thesis by simp
  next
    case False
    have "y mod 4 = e + 1"
      by (rule int_mod_pos_eq [where q = "100 * a + 25 * b + c"]) (use y False assms in simp_all)
    with False show ?thesis by simp
  qed
  have m100: "y mod 100 = (if c = 24 \<and> e = 3 then 0 else 4 * c + e + 1)"
  proof (cases "c = 24 \<and> e = 3")
    case True
    have "y mod 100 = 0"
      by (rule int_mod_pos_eq [where q = "4 * a + b + 1"]) (use y True in simp_all)
    with True show ?thesis by simp
  next
    case False
    have "y mod 100 = 4 * c + e + 1"
      by (rule int_mod_pos_eq [where q = "4 * a + b"]) (use y False assms in auto)
    with False show ?thesis by simp
  qed
  have m400: "y mod 400 = (if b = 3 \<and> c = 24 \<and> e = 3 then 0 else 100 * b + 4 * c + e + 1)"
  proof (cases "b = 3 \<and> c = 24 \<and> e = 3")
    case True
    have "y mod 400 = 0"
      by (rule int_mod_pos_eq [where q = "a + 1"]) (use y True in simp_all)
    with True show ?thesis by simp
  next
    case False
    have "y mod 400 = 100 * b + 4 * c + e + 1"
      by (rule int_mod_pos_eq [where q = a]) (use y False assms in auto)
    with False show ?thesis by simp
  qed
  show ?thesis
    unfolding is_leap_def m4 m100 m400 using assms by auto
qed

lemma day_of_year_bounds:
  fixes m d :: int and L :: bool
  assumes "1 \<le> m" "m \<le> 12" "1 \<le> d" "d \<le> (if m = 2 \<and> L then 29 else DAYS_IN_MONTH ! nat m)"
    and "r = DAYS_BEFORE_MONTH ! nat m + (if m > 2 \<and> L then 1 else 0) + d - 1"
  shows "0 \<le> r" "r \<le> 364 + (if L then 1 else 0)" "r = 365 \<longrightarrow> m = 12 \<and> d = 31"
proof -
  from assms(1,2) have "m = 1 \<or> m = 2 \<or> m = 3 \<or> m = 4 \<or> m = 5 \<or> m = 6 \<or> m = 7 \<or> m = 8
      \<or> m = 9 \<or> m = 10 \<or> m = 11 \<or> m = 12" by arith
  then show "0 \<le> r" "r \<le> 364 + (if L then 1 else 0)" "r = 365 \<longrightarrow> m = 12 \<and> d = 31"
    using assms(3,4,5)
    by (auto simp: DAYS_IN_MONTH_def DAYS_BEFORE_MONTH_def split: if_splits)
qed

lemma ord2ymd_ymd2ord:
  assumes "1 \<le> y" "1 \<le> m" "m \<le> 12" "1 \<le> d" "d \<le> days_in_month y m"
  shows "ord2ymd (ymd2ord y m d) = (y, m, d)"
proof -
  from assms(1) have "0 \<le> y - 1" by simp
  then obtain a b c e where dg: "y - 1 = 400 * a + 100 * b + 4 * c + e"
    and bd: "0 \<le> a" "0 \<le> b" "b \<le> 3" "0 \<le> c" "c \<le> 24" "0 \<le> e" "e \<le> 3"
    by (rule year_digits)
  note dby = days_before_year_digits [OF dg bd(2-7)]
  note leap = is_leap_digits [OF dg bd(2-7)]
  define L where "L = is_leap y"
  define r where "r = DAYS_BEFORE_MONTH ! nat m + (if m > 2 \<and> L then 1 else 0) + d - 1"
  have dm: "d \<le> (if m = 2 \<and> L then 29 else DAYS_IN_MONTH ! nat m)"
    using assms(5) by (simp add: days_in_month_def L_def)
  note rb = day_of_year_bounds [OF assms(2,3,4) dm r_def]
  have n0: "ymd2ord y m d - 1 = 146097 * a + 36524 * b + 1461 * c + 365 * e + r"
    unfolding ymd2ord_def dby days_before_month_def r_def L_def by simp
  show ?thesis
  proof (cases "r = 365")
    case False
    with rb have k: "0 \<le> r" "r < 365" by (auto split: if_splits)
    have "ord2ymd (ymd2ord y m d) =
      (let month = (r + 50) div 32;
           preceding = DAYS_BEFORE_MONTH ! nat month + (if month > 2 \<and> L then 1 else 0)
       in if preceding > r
          then
            let month = month - 1;
                preceding = preceding
                            - (DAYS_IN_MONTH ! nat month + (if month = 2 \<and> L then 1 else 0))
            in (y, month, r - preceding + 1)
          else (y, month, r - preceding + 1))"
    proof -
      have yy: "a * 400 + 1 + b * 100 + c * 4 + e = y" using dg by simp
      have ll: "(e = 3 \<and> (c \<noteq> 24 \<or> b = 3)) = L" using leap by (simp add: L_def)
      have ne: "(e = 4 \<or> b = 4) = False" using bd by simp
      have D: "ord2ymd (ymd2ord y m d) =
        (let year = a * 400 + 1 + b * 100 + c * 4 + e
         in if e = 4 \<or> b = 4 then (year - 1, 12, 31)
            else
              let leapyear = (e = 3 \<and> (c \<noteq> 24 \<or> b = 3));
                  month = (r + 50) div 32;
                  preceding = DAYS_BEFORE_MONTH ! nat month
                              + (if month > 2 \<and> leapyear then 1 else 0)
              in if preceding > r
                 then
                   let month = month - 1;
                       preceding = preceding
                                   - (DAYS_IN_MONTH ! nat month
                                      + (if month = 2 \<and> leapyear then 1 else 0))
                   in (year, month, r - preceding + 1)
                 else (year, month, r - preceding + 1))"
        by (rule ord2ymd_digits) (use k bd n0 in simp_all)
      show ?thesis
        unfolding Let_def using D [unfolded Let_def yy ll ne if_False] .
    qed
    also have "\<dots> = (y, m, d)"
      by (rule month_day_tail [OF assms(2,3,4) dm r_def])
    finally show ?thesis .
  next
    case True
    with rb have md: "m = 12" "d = 31" and l: "L" by (auto split: if_splits)
    from l leap have e3: "e = 3" and cb: "c \<noteq> 24 \<or> b = 3" by (auto simp: L_def)
    show ?thesis
    proof (cases "c = 24")
      case False
      with bd have c23: "c \<le> 23" by simp
      have D: "ord2ymd (ymd2ord y m d) =
        (let year = a * 400 + 1 + b * 100 + c * 4 + 4
         in if (4::int) = 4 \<or> b = 4 then (year - 1, 12, 31)
            else
              let leapyear = ((4::int) = 3 \<and> (c \<noteq> 24 \<or> b = 3));
                  month = ((0::int) + 50) div 32;
                  preceding = DAYS_BEFORE_MONTH ! nat month
                              + (if month > 2 \<and> leapyear then 1 else 0)
              in if preceding > 0
                 then
                   let month = month - 1;
                       preceding = preceding
                                   - (DAYS_IN_MONTH ! nat month
                                      + (if month = 2 \<and> leapyear then 1 else 0))
                   in (year, month, 0 - preceding + 1)
                 else (year, month, 0 - preceding + 1))"
        by (rule ord2ymd_digits) (use bd c23 n0 True e3 in simp_all)
      then have "ord2ymd (ymd2ord y m d) = (a * 400 + 1 + b * 100 + c * 4 + 4 - 1, 12, 31)"
        by (simp add: Let_def)
      then show ?thesis using dg e3 md by simp
    next
      case c24: True
      with cb have b3: "b = 3" by simp
      have D: "ord2ymd (ymd2ord y m d) =
        (let year = a * 400 + 1 + 4 * 100 + 0 * 4 + 0
         in if (0::int) = 4 \<or> (4::int) = 4 then (year - 1, 12, 31)
            else
              let leapyear = ((0::int) = 3 \<and> ((0::int) \<noteq> 24 \<or> (4::int) = 3));
                  month = ((0::int) + 50) div 32;
                  preceding = DAYS_BEFORE_MONTH ! nat month
                              + (if month > 2 \<and> leapyear then 1 else 0)
              in if preceding > 0
                 then
                   let month = month - 1;
                       preceding = preceding
                                   - (DAYS_IN_MONTH ! nat month
                                      + (if month = 2 \<and> leapyear then 1 else 0))
                   in (year, month, 0 - preceding + 1)
                 else (year, month, 0 - preceding + 1))"
        by (rule ord2ymd_digits) (use bd n0 True e3 c24 b3 in simp_all)
      then have "ord2ymd (ymd2ord y m d) = (a * 400 + 400, 12, 31)"
        by (simp add: Let_def)
      then show ?thesis using dg e3 c24 b3 md by simp
    qed
  qed
qed

text \<open>
  Claim C10. \<^verbatim>\<open>get_analysis_date\<close> returns exactly when yesterday is a date of the
  calendar, the three date fields (each the caller's value, or yesterday's field where
  the caller gave \<^verbatim>\<open>None\<close>, independently of the other two) form a valid date and the
  end of the window is a date of the calendar. The start is then midnight of that date:
  its time of day is zero and its year, month and day are the three fields. The end is
  the start plus \<open>time_window\<close> hours.
\<close>

theorem get_analysis_date_window:
  "get_analysis_date now year month day time_window = Inr (start, stop) \<longleftrightarrow>
     (let today = now - day_ns;
          y = (case year of Some v \<Rightarrow> v | None \<Rightarrow> dt_year today);
          m = (case month of Some v \<Rightarrow> v | None \<Rightarrow> dt_month today);
          d = (case day of Some v \<Rightarrow> v | None \<Rightarrow> dt_day today)
      in 0 < toordinal today \<and> toordinal today \<le> MAXORDINAL
         \<and> MINYEAR \<le> y \<and> y \<le> MAXYEAR \<and> 1 \<le> m \<and> m \<le> 12 \<and> 1 \<le> d \<and> d \<le> days_in_month y m
         \<and> (start mod day_ns = 0 \<and> toordinal start = ymd2ord y m d)
         \<and> dt_year start = y \<and> dt_month start = m \<and> dt_day start = d
         \<and> stop = start + time_window * hour_ns
         \<and> 0 < toordinal stop \<and> toordinal stop \<le> MAXORDINAL)"
proof -
  have fields: "dt_year s = y \<and> dt_month s = m \<and> dt_day s = d"
    if "MINYEAR \<le> y" "1 \<le> m" "m \<le> 12" "1 \<le> d" "d \<le> days_in_month y m"
      "toordinal s = ymd2ord y m d" for s y m d
    using ord2ymd_ymd2ord [of y m d] that
    by (simp add: dt_year_def dt_month_def dt_day_def MINYEAR_def)
  show ?thesis
    unfolding get_analysis_date_Inr midnight_iff [symmetric] Let_def
    using fields by blast
qed

text \<open>
  On 2020-03-31 at 05:00, with month 2 and day 1 given and no year, the year is
  yesterday's, 2020, and the window is the 24 hours from midnight of 2020-02-01.
\<close>

theorem get_analysis_date_window_witness:
  "get_analysis_date (ymd2ord 2020 3 31 * day_ns + 5 * hour_ns) None (Some 2) (Some 1) 24
     = Inr (ymd2ord 2020 2 1 * day_ns, ymd2ord 2020 2 1 * day_ns + 24 * hour_ns)
   \<and> dt_year (ymd2ord 2020 3 31 * day_ns + 5 * hour_ns - day_ns) = 2020
   \<and> dt_year (ymd2ord 2020 2 1 * day_ns) = 2020
   \<and> dt_month (ymd2ord 2020 2 1 * day_ns) = 2
   \<and> dt_day (ymd2ord 2020 2 1 * day_ns) = 1"
proof -
  let ?now = "ymd2ord 2020 3 31 * day_ns + 5 * hour_ns"
  let ?start = "ymd2ord 2020 2 1 * day_ns"
  have t: "toordinal (?now - day_ns) = 737514"
    by (simp add: toordinal_def ymd2ord_def days_before_year_def days_before_month_def
          DAYS_BEFORE_MONTH_def is_leap_def day_ns_def hour_ns_def)
  have y: "dt_year (?now - day_ns) = 2020"
    unfolding dt_year_def t by (simp add: ord2ymd_def Let_def DAYS_BEFORE_MONTH_def DAYS_IN_MONTH_def)
  have run: "get_analysis_date ?now None (Some 2) (Some 1) 24 = Inr (?start, ?start + 24 * hour_ns)"
    unfolding get_analysis_date_Inr Let_def option.case y t
    by (simp add: toordinal_def ymd2ord_def days_before_year_def days_before_month_def
          DAYS_BEFORE_MONTH_def DAYS_IN_MONTH_def days_in_month_def is_leap_def day_ns_def hour_ns_def
          MINYEAR_def MAXYEAR_def MAXORDINAL_def)
  from get_analysis_date_window [of ?now None "Some 2" "Some 1" 24 ?start "?start + 24 * hour_ns"] run
  have "dt_year ?start = 2020 \<and> dt_month ?start = 2 \<and> dt_day ?start = 1"
    unfolding Let_def option.case y by blast
  with run y show ?thesis by blast
qed

subsection \<open>What write_shapefile writes\<close>

lemma dict_fold: "fold (\<lambda>(k, v) m. m(k \<mapsto> v)) kvs m0 = m0 ++ map_of (rev kvs)"
  by (induction kvs arbitrary: m0) (auto simp: map_add_upd_left)

lemma dict_map_of: "dict kvs = map_of (rev kvs)"
  by (simp add: dict_def dict_fold)

lemma dict_zip_nth:
  assumes "distinct ks" "length ks \<le> length vs" "i < length ks"
  shows "dict (zip ks vs) (ks ! i) = Some (vs ! i)"
proof -
  have d: "distinct (map fst (rev (zip ks vs)))"
    using assms(1) by (simp add: rev_map [symmetric] distinct_zipI1 map_fst_zip_take)
  have "(ks ! i, vs ! i) \<in> set (rev (zip ks vs))"
    using assms by (auto simp: set_zip)
  then show ?thesis
    using d by (simp add: dict_map_of)
qed

lemma paths_loop_eq:
  "paths_loop env propname z ps acc =
     (if \<forall>p\<in>set ps. shapely_accepts env (vertices p)
      then Inr (acc @ map (ring_entry propname z) ps)
      else Inl ValueError)"
  by (induction ps arbitrary: acc)
     (auto simp: Let_def zip_map_fst_snd shapely_Polygon_def ring_entry_def)

lemma collections_loop_eq:
  assumes "list_all2 (\<lambda>col z. lvls (cid col) = Some z) cols zs"
  shows "collections_loop env propname lvls cols acc =
     (if \<forall>col\<in>set cols. \<forall>p\<in>set (get_paths col). shapely_accepts env (vertices p)
      then Inr (acc @ concat (map (\<lambda>(col, z). map (ring_entry propname z) (get_paths col)) (zip cols zs)))
      else Inl ValueError)"
  using assms
  by (induction cols zs arbitrary: acc rule: list_all2_induct)
     (auto simp: paths_loop_eq)

lemma write_loop_all:
  "\<forall>n<length ps. fiona_write_ok env path (length (fc_features out) + n) \<Longrightarrow>
   write_loop env path ps out
     = (Inr (), out\<lparr>fc_features := fc_features out @ map to_feature ps\<rparr>)"
proof (induction ps arbitrary: out)
  case Nil
  then show ?case by simp
next
  case (Cons p ps)
  from Cons.prems have ok0: "fiona_write_ok env path (length (fc_features out))"
    by force
  from Cons.prems have rest: "\<forall>n<length ps. fiona_write_ok env path (Suc (length (fc_features out)) + n)"
    by force
  show ?case
    using ok0 rest Cons.IH [of "out\<lparr>fc_features := fc_features out @ [\<lparr>properties = props p, geometry = poly p\<rparr>]\<rparr>"]
    by (simp add: to_feature_def)
qed

lemma write_loop_fails:
  "k < length ps \<Longrightarrow>
   \<forall>n<k. fiona_write_ok env path (length (fc_features out) + n) \<Longrightarrow>
   \<not> fiona_write_ok env path (length (fc_features out) + k) \<Longrightarrow>
   write_loop env path ps out
     = (Inl (OSError path), out\<lparr>fc_features := fc_features out @ map to_feature (take k ps)\<rparr>)"
proof (induction ps arbitrary: out k)
  case Nil
  then show ?case by simp
next
  case (Cons p ps)
  show ?case
  proof (cases k)
    case 0
    with Cons.prems show ?thesis by simp
  next
    case (Suc j)
    let ?out = "out\<lparr>fc_features := fc_features out @ [\<lparr>properties = props p, geometry = poly p\<rparr>]\<rparr>"
    from Cons.prems Suc have ok0: "fiona_write_ok env path (length (fc_features out))"
      by force
    from Cons.prems Suc have a: "j < length ps" by simp
    from Cons.prems Suc have b: "\<forall>n<j. fiona_write_ok env path (length (fc_features ?out) + n)"
      by force
    from Cons.prems Suc have c: "\<not> fiona_write_ok env path (length (fc_features ?out) + j)"
      by simp
    show ?thesis
      using ok0 Cons.IH [OF a b c] Suc by (simp add: to_feature_def)
  qed
qed

lemma to_feature_ring_entry: "to_feature (ring_entry propname z p) = polygon_feature propname z p"
  by (simp add: to_feature_def ring_entry_def polygon_feature_def)

lemma map_to_feature_entries:
  "map to_feature (concat (map (\<lambda>(col, z). map (ring_entry propname z) (get_paths col)) czs))
     = concat (map (\<lambda>(col, z). map (polygon_feature propname z) (get_paths col)) czs)"
  by (induction czs) (auto simp: to_feature_ring_entry)

lemma levels_dict_all2:
  assumes "distinct (map cid cols)" "length cols = length zs"
  shows "list_all2 (\<lambda>col z. dict (zip (map cid cols) zs) (cid col) = Some z) cols zs"
  unfolding list_all2_conv_all_nth
proof (intro conjI allI impI)
  show "length cols = length zs" by fact
  fix i assume "i < length cols"
  then show "dict (zip (map cid cols) zs) (cid (cols ! i)) = Some (zs ! i)"
    using dict_zip_nth [of "map cid cols" zs i] assms by simp
qed

lemma polylist_eq:
  assumes "distinct (map cid (collections cs))" "length (collections cs) = length (levels cs)"
  shows "collections_loop env propname (dict (zip (map cid (collections cs)) (levels cs))) (collections cs) []
     = (if all_accepted env cs
        then Inr (concat (map (\<lambda>(col, z). map (ring_entry propname z) (get_paths col))
                     (zip (collections cs) (levels cs))))
        else Inl ValueError)"
  using collections_loop_eq [OF levels_dict_all2 [OF assms], of env propname "[]"]
  by (simp add: all_accepted_def)

lemma write_loop_Inr:
  "write_loop env path ps out = (Inr u, out') \<Longrightarrow>
   out' = out\<lparr>fc_features := fc_features out @ map to_feature ps\<rparr>"
proof (induction ps arbitrary: out)
  case Nil
  then show ?case by simp
next
  case (Cons p ps)
  show ?case
  proof (cases "fiona_write_ok env path (length (fc_features out))")
    case True
    with Cons.prems have
      "write_loop env path ps
         (out\<lparr>fc_features := fc_features out @ [\<lparr>properties = props p, geometry = poly p\<rparr>]\<rparr>)
       = (Inr u, out')" by simp
    from Cons.IH [OF this] show ?thesis by (simp add: to_feature_def)
  next
    case False
    with Cons.prems show ?thesis by simp
  qed
qed

lemma write_shapefile_written:
  assumes "distinct (map cid (collections cs))" "length (collections cs) = length (levels cs)"
    and "write_shapefile env w cs propname (Some path) = (Inr (), w')"
  shows "all_accepted env cs \<and> fiona_open_ok env path \<and>
         w' = log_info
                (w\<lparr>shapefiles := (shapefiles w)(path \<mapsto>
                      \<lparr>fc_schema = shp_schema propname,
                       fc_features = ring_features propname (collections cs) (levels cs)\<rparr>)\<rparr>)
                (''Shapefile written to file '' @ path)"
proof -
  note pl = polylist_eq [OF assms(1,2), of env propname]
  from assms(3) have acc: "all_accepted env cs"
    unfolding write_shapefile_def Let_def pl by (auto split: if_splits)
  from assms(3) have op: "fiona_open_ok env path"
    unfolding write_shapefile_def Let_def pl by (auto split: if_splits sum.splits)
  let ?pl = "concat (map (\<lambda>(col, z). map (ring_entry propname z) (get_paths col))
                     (zip (collections cs) (levels cs)))"
  let ?out0 = "\<lparr>fc_schema = shp_schema propname, fc_features = []\<rparr>"
  obtain r out' where wl: "write_loop env path ?pl ?out0 = (r, out')"
    by (cases "write_loop env path ?pl ?out0") auto
  from assms(3) acc op wl have r: "r = Inr ()"
    unfolding write_shapefile_def Let_def pl shp_schema_def
    by (auto split: sum.splits)
  from write_loop_Inr [OF wl [unfolded r]]
  have out': "out' = \<lparr>fc_schema = shp_schema propname,
                      fc_features = ring_features propname (collections cs) (levels cs)\<rparr>"
    by (simp add: map_to_feature_entries ring_features_def)
  from assms(3) acc op wl r out' show ?thesis
    unfolding write_shapefile_def Let_def pl shp_schema_def
    by auto
qed

lemma write_shapefile_ok:
  assumes "distinct (map cid (collections cs))" "length (collections cs) = length (levels cs)"
    and "all_accepted env cs" "fiona_open_ok env path"
    and "\<forall>n<length (ring_features propname (collections cs) (levels cs)). fiona_write_ok env path n"
  shows "write_shapefile env w cs propname (Some path) =
         (Inr (), log_info
                (w\<lparr>shapefiles := (shapefiles w)(path \<mapsto>
                      \<lparr>fc_schema = shp_schema propname,
                       fc_features = ring_features propname (collections cs) (levels cs)\<rparr>)\<rparr>)
                (''Shapefile written to file '' @ path))"
proof -
  note pl = polylist_eq [OF assms(1,2), of env propname]
  let ?pl = "concat (map (\<lambda>(col, z). map (ring_entry propname z) (get_paths col))
                     (zip (collections cs) (levels cs)))"
  let ?out0 = "\<lparr>fc_schema = shp_schema propname, fc_features = []\<rparr>"
  have len: "length ?pl = length (ring_features propname (collections cs) (levels cs))"
    unfolding ring_features_def map_to_feature_entries [symmetric] by simp
  have "write_loop env path ?pl ?out0
          = (Inr (), ?out0\<lparr>fc_features := fc_features ?out0 @ map to_feature ?pl\<rparr>)"
    by (rule write_loop_all) (use assms(5) len in simp)
  then show ?thesis
    using assms(3,4)
    unfolding write_shapefile_def Let_def pl shp_schema_def
    by (simp add: map_to_feature_entries ring_features_def)
qed

lemma filter_level_features:
  "filter (\<lambda>f. properties f = [(propname, z)])
       (concat (map (\<lambda>(col, z'). map (polygon_feature propname z') (get_paths col)) czs))
     = concat (map (\<lambda>(col, z'). if z' = z then map (polygon_feature propname z) (get_paths col) else [])
                czs)"
proof -
  have one: "filter (\<lambda>f. properties f = [(propname, z)]) (map (polygon_feature propname z') ps)
        = (if z' = z then map (polygon_feature propname z) ps else [])" for z' ps
    by (induction ps) (auto simp: polygon_feature_def)
  show ?thesis
    by (induction czs) (auto simp: one)
qed

lemma features_at_ring_features:
  "features_at propname z (ring_features propname cols zs)
     = concat (map (\<lambda>(col, z'). if z' = z then map (polygon_feature propname z) (get_paths col) else [])
                (zip cols zs))"
  unfolding features_at_def ring_features_def by (rule filter_level_features)






subsection \<open>No ring is filtered\<close>

lemma geometry_ring_features:
  "length cols = length zs \<Longrightarrow>
   map geometry (ring_features propname cols zs)
     = map (\<lambda>p. Polygon (vertices p)) (concat (map get_paths cols))"
  unfolding ring_features_def
  by (induction cols zs rule: list_induct2) (auto simp: polygon_feature_def)

lemma write_shapefile_rejected:
  assumes "distinct (map cid (collections cs))" "length (collections cs) = length (levels cs)"
    and "\<not> all_accepted env cs"
  shows "write_shapefile env w cs propname shapefile = (Inl ValueError, w)"
  using assms(3) unfolding write_shapefile_def Let_def polylist_eq [OF assms(1,2)]
  by simp

text \<open>
  Claim C6, as amended. \<^verbatim>\<open>write_shapefile\<close> filters no ring. Every ring of every
  collection is handed to \<^verbatim>\<open>geometry.Polygon\<close>: if the library rejects one of them the
  exception leaves the function before the file is opened, and whenever the function
  returns, the geometries in the file are the rings of all collections, one for one and
  in order.
\<close>

theorem write_shapefile_keeps_every_ring:
  assumes "distinct (map cid (collections cs))"
    and "length (collections cs) = length (levels cs)"
  shows "(\<not> all_accepted env cs \<longrightarrow>
            write_shapefile env w cs propname (Some path) = (Inl ValueError, w))
       \<and> (\<forall>w'. write_shapefile env w cs propname (Some path) = (Inr (), w') \<longrightarrow>
            (\<exists>fc. shapefiles w' path = Some fc
               \<and> map geometry (fc_features fc)
                   = map (\<lambda>p. Polygon (vertices p)) (concat (map get_paths (collections cs)))))"
proof (intro conjI allI impI)
  assume "\<not> all_accepted env cs"
  then show "write_shapefile env w cs propname (Some path) = (Inl ValueError, w)"
    by (rule write_shapefile_rejected [OF assms])
next
  fix w' assume "write_shapefile env w cs propname (Some path) = (Inr (), w')"
  from write_shapefile_written [OF assms this]
  have "shapefiles w' path = Some \<lparr>fc_schema = shp_schema propname,
          fc_features = ring_features propname (collections cs) (levels cs)\<rparr>"
    by (simp add: log_info_def)
  then show "\<exists>fc. shapefiles w' path = Some fc
               \<and> map geometry (fc_features fc)
                   = map (\<lambda>p. Polygon (vertices p)) (concat (map get_paths (collections cs)))"
    using geometry_ring_features [OF assms(2)] by simp
qed

text \<open>
  The run of \<^verbatim>\<open>write_shapefile\<close> on the example contour set.
\<close>

lemma example_cs_run:
  "write_shapefile example_env example_world example_cs ''pm25'' (Some ''out.shp'')
     = (Inr (), log_info
          (example_world\<lparr>shapefiles := [''out.shp'' \<mapsto>
             \<lparr>fc_schema = shp_schema ''pm25'',
              fc_features = ring_features ''pm25'' (collections example_cs) (levels example_cs)\<rparr>]\<rparr>)
          ''Shapefile written to file out.shp'')"
  by (simp add: write_shapefile_def example_env_def example_world_def example_cs_def dict_def
        shapely_Polygon_def Let_def shp_schema_def ring_features_def polygon_feature_def)

text \<open>
  The three rings of the example are written; with a library that wants four coordinates
  the ring of three points stops the run and no file appears.
\<close>

theorem write_shapefile_keeps_every_ring_witness:
  "distinct (map cid (collections example_cs))
   \<and> length (collections example_cs) = length (levels example_cs)
   \<and> fst (write_shapefile example_env example_world example_cs ''pm25'' (Some ''out.shp'')) = Inr ()
   \<and> map_option (\<lambda>fc. map geometry (fc_features fc))
        (shapefiles (snd (write_shapefile example_env example_world example_cs ''pm25'' (Some ''out.shp'')))
           ''out.shp'')
      = Some [Polygon [(0, 0), (1, 0), (1, 1), (0, 1), (0, 0)],
              Polygon [(2, 2), (3, 2), (3, 3), (2, 2)],
              Polygon [(0, 0), (1, 0), (0, 1)]]
   \<and> write_shapefile (example_env\<lparr>shapely_accepts := (\<lambda>coords. 4 \<le> length coords)\<rparr>)
        example_world example_cs ''pm25'' (Some ''out.shp'') = (Inl ValueError, example_world)"
proof -
  have d: "distinct (map cid (collections example_cs))"
    and l: "length (collections example_cs) = length (levels example_cs)"
    by (simp_all add: example_cs_def)
  have rej: "\<not> all_accepted (example_env\<lparr>shapely_accepts := (\<lambda>coords. 4 \<le> length coords)\<rparr>) example_cs"
    by (simp add: all_accepted_def example_cs_def)
  note t = write_shapefile_keeps_every_ring [OF d l]
  from t [of "example_env\<lparr>shapely_accepts := (\<lambda>coords. 4 \<le> length coords)\<rparr>" example_world "''pm25''" "''out.shp''"] rej
  have a: "write_shapefile (example_env\<lparr>shapely_accepts := (\<lambda>coords. 4 \<le> length coords)\<rparr>)
        example_world example_cs ''pm25'' (Some ''out.shp'') = (Inl ValueError, example_world)"
    by blast
  from t [of example_env example_world "''pm25''" "''out.shp''"] example_cs_run
  obtain fc where fc: "shapefiles (snd (write_shapefile example_env example_world example_cs ''pm25'' (Some ''out.shp''))) ''out.shp'' = Some fc"
     "map geometry (fc_features fc)
                   = map (\<lambda>p. Polygon (vertices p)) (concat (map get_paths (collections example_cs)))"
    by auto
  have b: "map (\<lambda>p. Polygon (vertices p)) (concat (map get_paths (collections example_cs)))
     = [Polygon [(0, 0), (1, 0), (1, 1), (0, 1), (0, 0)],
              Polygon [(2, 2), (3, 2), (3, 3), (2, 2)],
              Polygon [(0, 0), (1, 0), (0, 1)]]"
    by (simp add: example_cs_def)
  show ?thesis
    using d l a fc b example_cs_run by simp
qed

text \<open>
  Claim C6 as stated fails: a ring that runs over two distinct points only is built and
  written as a feature.
\<close>

theorem degenerate_ring_written_counterexample:
  "degenerate (vertices (Path [(0, 0), (1, 1), (0, 0), (1, 1)]))
   \<and> fst (write_shapefile example_env example_world thin_cs ''pm25'' (Some ''out.shp'')) = Inr ()
   \<and> shapefiles (snd (write_shapefile example_env example_world thin_cs ''pm25'' (Some ''out.shp'')))
        ''out.shp''
      = Some \<lparr>fc_schema = shp_schema ''pm25'',
              fc_features = [\<lparr>properties = [(''pm25'', 10)],
                              geometry = Polygon [(0, 0), (1, 1), (0, 0), (1, 1)]\<rparr>]\<rparr>"
  by (simp add: write_shapefile_def example_env_def example_world_def thin_cs_def dict_def
        shapely_Polygon_def Let_def shp_schema_def log_info_def degenerate_def)

subsection \<open>The order of the features\<close>






subsection \<open>Failing writes\<close>

lemma write_shapefile_fails_at:
  assumes "distinct (map cid (collections cs))" "length (collections cs) = length (levels cs)"
    and "all_accepted env cs" "fiona_open_ok env path"
    and "k < length (ring_features propname (collections cs) (levels cs))"
    and "\<forall>n<k. fiona_write_ok env path n" "\<not> fiona_write_ok env path k"
  shows "write_shapefile env w cs propname (Some path) =
         (Inl (OSError path),
          w\<lparr>shapefiles := (shapefiles w)(path \<mapsto>
                \<lparr>fc_schema = shp_schema propname,
                 fc_features = take k (ring_features propname (collections cs) (levels cs))\<rparr>)\<rparr>)"
proof -
  note pl = polylist_eq [OF assms(1,2), of env propname]
  let ?pl = "concat (map (\<lambda>(col, z). map (ring_entry propname z) (get_paths col))
                     (zip (collections cs) (levels cs)))"
  let ?out0 = "\<lparr>fc_schema = shp_schema propname, fc_features = []\<rparr>"
  have m: "map to_feature ?pl = ring_features propname (collections cs) (levels cs)"
    by (simp add: map_to_feature_entries ring_features_def)
  then have len: "length ?pl = length (ring_features propname (collections cs) (levels cs))"
    by (metis length_map)
  have "write_loop env path ?pl ?out0
          = (Inl (OSError path), ?out0\<lparr>fc_features := fc_features ?out0 @ map to_feature (take k ?pl)\<rparr>)"
    by (rule write_loop_fails) (use assms(5,6,7) len in simp_all)
  then show ?thesis
    using assms(3,4) m
    unfolding write_shapefile_def Let_def pl shp_schema_def
    by (simp add: take_map [symmetric])
qed

lemma write_shapefile_not_opened:
  "\<not> fiona_open_ok env path \<Longrightarrow>
   \<exists>e. write_shapefile env w cs propname (Some path) = (Inl e, w)"
  by (auto simp: write_shapefile_def Let_def split: sum.splits)

text \<open>
  Claim C3, as amended. Once the polygons are built and the file is open, the writer
  either writes every feature and returns, the file then holding all of them, or the
  first write that fails raises \<^verbatim>\<open>OSError\<close> out of \<^verbatim>\<open>write_shapefile\<close>, and the file
  stays at its final path with the schema and the features written before the failure.
\<close>

theorem write_shapefile_all_or_prefix:
  assumes "distinct (map cid (collections cs))"
    and "length (collections cs) = length (levels cs)"
    and "all_accepted env cs"
    and "fiona_open_ok env path"
  shows "((\<forall>n<length (ring_features propname (collections cs) (levels cs)). fiona_write_ok env path n) \<longrightarrow>
            write_shapefile env w cs propname (Some path) =
              (Inr (), log_info
                 (w\<lparr>shapefiles := (shapefiles w)(path \<mapsto>
                       \<lparr>fc_schema = shp_schema propname,
                        fc_features = ring_features propname (collections cs) (levels cs)\<rparr>)\<rparr>)
                 (''Shapefile written to file '' @ path)))
       \<and> (\<forall>k<length (ring_features propname (collections cs) (levels cs)).
            (\<forall>n<k. fiona_write_ok env path n) \<and> \<not> fiona_write_ok env path k \<longrightarrow>
            write_shapefile env w cs propname (Some path) =
              (Inl (OSError path),
               w\<lparr>shapefiles := (shapefiles w)(path \<mapsto>
                     \<lparr>fc_schema = shp_schema propname,
                      fc_features = take k (ring_features propname (collections cs) (levels cs))\<rparr>)\<rparr>))"
  using write_shapefile_ok [OF assms] write_shapefile_fails_at [OF assms]
  by blast

text \<open>
  The example contour set has three rings. With working writes the file holds the three
  features; when the third write fails the file holds the first two.
\<close>

theorem write_shapefile_all_or_prefix_witness:
  "distinct (map cid (collections example_cs))
   \<and> length (collections example_cs) = length (levels example_cs)
   \<and> all_accepted example_env example_cs
   \<and> fiona_open_ok example_env ''out.shp''
   \<and> write_shapefile example_env example_world example_cs ''pm25'' (Some ''out.shp'') =
       (Inr (), log_info
          (example_world\<lparr>shapefiles := [''out.shp'' \<mapsto>
             \<lparr>fc_schema = shp_schema ''pm25'',
              fc_features = ring_features ''pm25'' (collections example_cs) (levels example_cs)\<rparr>]\<rparr>)
          ''Shapefile written to file out.shp'')
   \<and> write_shapefile (example_env\<lparr>fiona_write_ok := (\<lambda>p n. n < 2)\<rparr>) example_world example_cs
        ''pm25'' (Some ''out.shp'') =
       (Inl (OSError ''out.shp''),
        example_world\<lparr>shapefiles := [''out.shp'' \<mapsto>
             \<lparr>fc_schema = shp_schema ''pm25'',
              fc_features = take 2 (ring_features ''pm25'' (collections example_cs) (levels example_cs))\<rparr>]\<rparr>)"
proof -
  let ?env = "example_env\<lparr>fiona_write_ok := (\<lambda>p n. n < 2)\<rparr>"
  have d: "distinct (map cid (collections example_cs))"
    and l: "length (collections example_cs) = length (levels example_cs)"
    by (simp_all add: example_cs_def)
  have a: "all_accepted example_env example_cs" and a': "all_accepted ?env example_cs"
    by (simp_all add: all_accepted_def example_cs_def example_env_def)
  have p: "fiona_open_ok example_env ''out.shp''" and p': "fiona_open_ok ?env ''out.shp''"
    by (simp_all add: example_env_def)
  have n: "length (ring_features ''pm25'' (collections example_cs) (levels example_cs)) = 3"
    by (simp add: ring_features_def example_cs_def)
  have ok: "\<forall>n<length (ring_features ''pm25'' (collections example_cs) (levels example_cs)).
              fiona_write_ok example_env ''out.shp'' n"
    by (simp add: example_env_def)
  have bad: "(\<forall>n<2. fiona_write_ok ?env ''out.shp'' n) \<and> \<not> fiona_write_ok ?env ''out.shp'' 2"
    by simp
  from write_shapefile_all_or_prefix [OF d l a p, of "''pm25''" example_world] ok
  have one: "write_shapefile example_env example_world example_cs ''pm25'' (Some ''out.shp'') =
       (Inr (), log_info
          (example_world\<lparr>shapefiles := (shapefiles example_world)(''out.shp'' \<mapsto>
             \<lparr>fc_schema = shp_schema ''pm25'',
              fc_features = ring_features ''pm25'' (collections example_cs) (levels example_cs)\<rparr>)\<rparr>)
          (''Shapefile written to file '' @ ''out.shp''))"
    by blast
  note T = write_shapefile_all_or_prefix [OF d l a' p', of "''pm25''" example_world,
               THEN conjunct2, rule_format, of 2]
  have two: "write_shapefile ?env example_world example_cs ''pm25'' (Some ''out.shp'') =
       (Inl (OSError ''out.shp''),
        example_world\<lparr>shapefiles := (shapefiles example_world)(''out.shp'' \<mapsto>
             \<lparr>fc_schema = shp_schema ''pm25'',
              fc_features = take 2 (ring_features ''pm25'' (collections example_cs) (levels example_cs))\<rparr>)\<rparr>)"
    by (rule T) (simp_all add: n)
  show ?thesis
    using d l a p one two by (simp add: example_world_def)
qed

text \<open>
  Claim C3 as stated fails: when the second write fails the run ends with the exception
  and the file at the final path holds one feature of three.
\<close>

theorem partial_file_counterexample:
  "fst (write_shapefile (example_env\<lparr>fiona_write_ok := (\<lambda>p n. n < 1)\<rparr>) example_world example_cs
          ''pm25'' (Some ''out.shp'')) = Inl (OSError ''out.shp'')
   \<and> shapefiles (snd (write_shapefile (example_env\<lparr>fiona_write_ok := (\<lambda>p n. n < 1)\<rparr>)
                          example_world example_cs ''pm25'' (Some ''out.shp''))) ''out.shp''
      = Some \<lparr>fc_schema = shp_schema ''pm25'',
              fc_features = [polygon_feature ''pm25'' 10 (Path [(0, 0), (1, 0), (1, 1), (0, 1), (0, 0)])]\<rparr>
   \<and> length (ring_features ''pm25'' (collections example_cs) (levels example_cs)) = 3"
  by (simp add: write_shapefile_def example_env_def example_world_def example_cs_def dict_def
        shapely_Polygon_def Let_def shp_schema_def polygon_feature_def ring_features_def)

subsection \<open>Levels without rings\<close>

lemma features_at_empty_level:
  assumes "\<forall>(col, z')\<in>set czs. z' = z \<longrightarrow> get_paths col = []"
  shows "concat (map (\<lambda>(col, z'). if z' = z then map (polygon_feature propname z) (get_paths col) else [])
                czs) = []"
  using assms by (induction czs) auto

lemma ring_features_all_empty:
  assumes "\<forall>col\<in>set cols. get_paths col = []"
  shows "ring_features propname cols zs = []"
  using assms unfolding ring_features_def
  by (auto dest: set_zip_leftD)

text \<open>
  Claim C8. When the contouring routine reports no ring for a level, and the libraries
  do not fail, \<^verbatim>\<open>write_shapefile\<close> returns, the file has the declared schema and no
  feature of that level; when no level has a ring the file has the schema and no feature.
\<close>

theorem empty_level_writes_no_feature:
  assumes "distinct (map cid (collections cs))"
    and "length (collections cs) = length (levels cs)"
    and "all_accepted env cs"
    and "fiona_open_ok env path"
    and "\<forall>n<length (ring_features propname (collections cs) (levels cs)). fiona_write_ok env path n"
    and "\<forall>(col, z')\<in>set (zip (collections cs) (levels cs)). z' = z \<longrightarrow> get_paths col = []"
  shows "\<exists>w' fc. write_shapefile env w cs propname (Some path) = (Inr (), w')
           \<and> shapefiles w' path = Some fc
           \<and> fc_schema fc = \<lparr>schema_geometry = ''Polygon'', schema_properties = [(propname, ''float'')]\<rparr>
           \<and> features_at propname z (fc_features fc) = []
           \<and> ((\<forall>col\<in>set (collections cs). get_paths col = []) \<longrightarrow> fc_features fc = [])"
proof -
  let ?fc = "\<lparr>fc_schema = shp_schema propname,
             fc_features = ring_features propname (collections cs) (levels cs)\<rparr>"
  let ?w' = "log_info (w\<lparr>shapefiles := (shapefiles w)(path \<mapsto> ?fc)\<rparr>)
               (''Shapefile written to file '' @ path)"
  have run: "write_shapefile env w cs propname (Some path) = (Inr (), ?w')"
    by (rule write_shapefile_ok [OF assms(1-5)])
  have fl: "shapefiles ?w' path = Some ?fc"
    by (simp add: log_info_def)
  have none: "features_at propname z (fc_features ?fc) = []"
    using features_at_empty_level [OF assms(6)] by (simp add: features_at_ring_features)
  have all: "(\<forall>col\<in>set (collections cs). get_paths col = []) \<longrightarrow> fc_features ?fc = []"
    by (simp add: ring_features_all_empty)
  have sch: "fc_schema ?fc = \<lparr>schema_geometry = ''Polygon'', schema_properties = [(propname, ''float'')]\<rparr>"
    by (simp add: shp_schema_def)
  from run fl none all sch show ?thesis by blast
qed

text \<open>
  Level 25 of the example has no ring and no feature; the contour set without rings
  gives a file with the schema alone.
\<close>

theorem empty_level_writes_no_feature_witness:
  "write_shapefile example_env example_world example_cs ''pm25'' (Some ''out.shp'')
     = (Inr (), log_info
          (example_world\<lparr>shapefiles := [''out.shp'' \<mapsto>
             \<lparr>fc_schema = shp_schema ''pm25'',
              fc_features = ring_features ''pm25'' (collections example_cs) (levels example_cs)\<rparr>]\<rparr>)
          ''Shapefile written to file out.shp'')
   \<and> features_at ''pm25'' 25 (ring_features ''pm25'' (collections example_cs) (levels example_cs)) = []
   \<and> write_shapefile example_env example_world empty_cs ''pm25'' (Some ''out.shp'')
     = (Inr (), log_info
          (example_world\<lparr>shapefiles := [''out.shp'' \<mapsto>
             \<lparr>fc_schema = shp_schema ''pm25'', fc_features = []\<rparr>]\<rparr>)
          ''Shapefile written to file out.shp'')"
proof -
  have d: "distinct (map cid (collections example_cs))"
    and l: "length (collections example_cs) = length (levels example_cs)"
    by (simp_all add: example_cs_def)
  have a: "all_accepted example_env example_cs"
    by (simp add: all_accepted_def example_cs_def example_env_def)
  have p: "fiona_open_ok example_env ''out.shp''"
    by (simp add: example_env_def)
  have ok: "\<forall>n<length (ring_features ''pm25'' (collections example_cs) (levels example_cs)).
              fiona_write_ok example_env ''out.shp'' n"
    by (simp add: example_env_def)
  have e: "\<forall>(col, z')\<in>set (zip (collections example_cs) (levels example_cs)).
             z' = 25 \<longrightarrow> get_paths col = []"
    by (simp add: example_cs_def)
  from empty_level_writes_no_feature [OF d l a p ok e, of example_world]
  obtain w' fc where r: "write_shapefile example_env example_world example_cs ''pm25'' (Some ''out.shp'') = (Inr (), w')"
      "shapefiles w' ''out.shp'' = Some fc" "features_at ''pm25'' 25 (fc_features fc) = []"
    by blast
  from r example_cs_run have one:
    "features_at ''pm25'' 25 (ring_features ''pm25'' (collections example_cs) (levels example_cs)) = []"
    by (auto simp: log_info_def example_world_def)
  have two: "write_shapefile example_env example_world empty_cs ''pm25'' (Some ''out.shp'')
     = (Inr (), log_info
          (example_world\<lparr>shapefiles := [''out.shp'' \<mapsto>
             \<lparr>fc_schema = shp_schema ''pm25'', fc_features = []\<rparr>]\<rparr>)
          ''Shapefile written to file out.shp'')"
    by (simp add: write_shapefile_def example_env_def example_world_def empty_cs_def dict_def
        Let_def shp_schema_def)
  show ?thesis using example_cs_run one two by simp
qed

subsection \<open>The loop of read_nc\<close>

lemma read_nc_fst:
  "fst (read_nc env w ifile start stop vars scal func) =
     (case opened env ifile start of
        Inl e \<Rightarrow> Inl e
      | Inr ds \<Rightarrow> read_nc_open ds start stop vars scal func)"
  by (simp add: read_nc_def opened_def Let_def split: sum.splits)

lemma read_nc_open_unknown:
  assumes "func \<noteq> ''mean''" "func \<noteq> ''max''" "func \<noteq> ''min''"
  shows "\<exists>e. read_nc_open ds start stop vars scal func = Inl e"
  using assms unfolding read_nc_open_def Let_def
  by (auto split: sum.splits option.splits)

lemma loop_missing:
  assumes "k = 0 \<or> arrs \<noteq> None"
    and "\<forall>u\<in>set pre. ds_vars ds u \<noteq> None"
    and "ds_vars ds v = None"
  shows "read_nc_loop ds (enumerate k (pre @ v # post)) arrs = Inl (KeyError v)"
  using assms
proof (induction pre arbitrary: k arrs)
  case Nil
  then show ?case
    unfolding append_Nil enumerate_simps
    by (auto simp: ds_getitem_def)
next
  case (Cons u pre)
  from Cons.prems obtain vals where u: "ds_vars ds u = Some vals" by auto
  have ih: "read_nc_loop ds (enumerate (Suc k) (pre @ v # post)) (Some a)
        = Inl (KeyError v)" for a
    by (rule Cons.IH) (use Cons.prems in auto)
  show ?case
    unfolding append_Cons enumerate_simps
    using Cons.prems(1) u ih by (auto simp: ds_getitem_def)
qed

lemma ds_getitem_present:
  "ds_vars ds v \<noteq> None \<Longrightarrow> ds_getitem ds v = Inr (get_array ds v)"
  by (auto simp: ds_getitem_def get_array_def)

lemma loop_tail:
  assumes "0 < k" "\<forall>u\<in>set vs. ds_vars ds u \<noteq> None"
  shows "read_nc_loop ds (enumerate k vs) (Some acc)
           = Inr (Some (foldl da_add acc (map (get_array ds) vs)))"
  using assms
proof (induction vs arbitrary: k acc)
  case Nil
  then show ?case by simp
next
  case (Cons u vs)
  from Cons.prems obtain vals where u: "ds_vars ds u = Some vals" by auto
  have ih: "read_nc_loop ds (enumerate (Suc k) vs) (Some a)
        = Inr (Some (foldl da_add a (map (get_array ds) vs)))" for a
    by (rule Cons.IH) (use Cons.prems in auto)
  show ?case
    unfolding enumerate_simps
    using Cons.prems(1) ds_getitem_present [of ds u] u ih [of "da_add acc (get_array ds u)"]
    by simp
qed

lemma loop_all_present:
  assumes "\<forall>u\<in>set (v # vs). ds_vars ds u \<noteq> None"
  shows "read_nc_loop ds (enumerate 0 (v # vs)) None
           = Inr (Some (foldl da_add (get_array ds v) (map (get_array ds) vs)))"
proof -
  from assms obtain vals where v: "ds_vars ds v = Some vals" by auto
  have t: "read_nc_loop ds (enumerate (Suc 0) vs) (Some (get_array ds v))
           = Inr (Some (foldl da_add (get_array ds v) (map (get_array ds) vs)))"
    by (rule loop_tail) (use assms in auto)
  show ?thesis
    unfolding enumerate_simps using ds_getitem_present [of ds v] v t by simp
qed

subsection \<open>What read_nc computes\<close>





lemma foldl_da_add:
  "foldl da_add a bs = a\<lparr>da_values := foldl (\<lambda>m b. map2 (map2 (+)) m b) (da_values a) (map da_values bs)\<rparr>"
  by (induction bs arbitrary: a) (auto simp: da_add_def)





lemma summed_fields:
  "da_time (foldl da_add (get_array ds v) bs) = ds_time ds"
  "da_lev (foldl da_add (get_array ds v) bs) = ds_lev ds"
  "da_lon (foldl da_add (get_array ds v) bs) = ds_lon ds"
  "da_lat (foldl da_add (get_array ds v) bs) = ds_lat ds"
  unfolding foldl_da_add by (simp_all add: get_array_def)








lemma times_min_Inr: "tms \<noteq> [] \<Longrightarrow> \<exists>m. times_min tms = Inr m"
  by (cases tms) (auto simp: times_min_def)

lemma read_nc_open_after_loop:
  assumes "read_nc_loop (windowed ds0 start stop) (enumerate 0 (var_names vars)) None = Inr (Some arrs)"
    and "times_min (da_time arrs) = Inr m"
  shows "read_nc_open ds0 start stop vars scal func =
     (case reduced func arrs of
        None \<Rightarrow> Inl (UnboundLocalError ''arr'')
      | Some arr \<Rightarrow>
          (case (if arr_lev arr \<noteq> None then squeeze_lev arr else Inr arr) of
             Inl e \<Rightarrow> Inl e
           | Inr arr \<Rightarrow>
               Inr (if scal \<noteq> 1 then arr_scale arr scal else arr,
                    m + sum_list (map (\<lambda>t. t - m) (da_time arrs)) div int (length (da_time arrs)))))"
  unfolding read_nc_open_def using assms
  by (simp add: Let_def windowed_def var_names_def reduced_def
           cong: sum.case_cong option.case_cong)





subsection \<open>When read_nc raises\<close>

lemma ds_vars_windowed: "ds_vars (windowed ds start stop) v = None \<longleftrightarrow> ds_vars ds v = None"
  by (simp add: windowed_def sel_time_def)

lemma read_nc_open_loop_error:
  assumes "read_nc_loop (windowed ds0 start stop) (enumerate 0 (var_names vars)) None = Inl e"
  shows "read_nc_open ds0 start stop vars scal func = Inl e"
  unfolding read_nc_open_def using assms
  by (simp add: Let_def windowed_def var_names_def)

lemma read_nc_open_times_error:
  assumes "read_nc_loop (windowed ds0 start stop) (enumerate 0 (var_names vars)) None = Inr (Some arrs)"
    and "times_min (da_time arrs) = Inl e"
  shows "read_nc_open ds0 start stop vars scal func = Inl e"
  unfolding read_nc_open_def using assms
  by (simp add: Let_def windowed_def var_names_def)

lemma read_nc_open_missing:
  assumes "var_names vars = pre @ v # post"
    and "\<forall>u\<in>set pre. ds_vars ds0 u \<noteq> None"
    and "ds_vars ds0 v = None"
  shows "read_nc_open ds0 start stop vars scal func = Inl (KeyError v)"
proof (rule read_nc_open_loop_error)
  show "read_nc_loop (windowed ds0 start stop) (enumerate 0 (var_names vars)) None = Inl (KeyError v)"
    unfolding assms(1)
    by (rule loop_missing) (use assms(2,3) in \<open>simp_all add: ds_vars_windowed\<close>)
qed

lemma read_nc_open_no_sample:
  assumes "var_names vars \<noteq> []"
    and "\<forall>u\<in>set (var_names vars). ds_vars ds0 u \<noteq> None"
    and "ds_time (windowed ds0 start stop) = []"
  shows "read_nc_open ds0 start stop vars scal func = Inl ValueError"
proof -
  let ?ds = "windowed ds0 start stop"
  from assms(1) obtain v vs where vn: "var_names vars = v # vs"
    by (cases "var_names vars") auto
  let ?arrs = "foldl da_add (get_array ?ds v) (map (get_array ?ds) vs)"
  have loop: "read_nc_loop ?ds (enumerate 0 (var_names vars)) None = Inr (Some ?arrs)"
    unfolding vn by (rule loop_all_present) (use assms(2) vn in \<open>simp add: ds_vars_windowed\<close>)
  have "times_min (da_time ?arrs) = Inl ValueError"
    unfolding summed_fields assms(3) by (simp add: times_min_def)
  from read_nc_open_times_error [OF loop this] show ?thesis .
qed

lemma windowed_empty:
  "ds_time (windowed ds start stop) = [] \<longleftrightarrow>
     (1 < length (ds_time ds) \<and> filter (\<lambda>t. start \<le> t \<and> t \<le> stop) (ds_time ds) = [])
     \<or> ds_time ds = []"
  by (auto simp: windowed_def sel_time_def)

lemma read_nc_open_single:
  assumes "length (ds_time ds0) \<le> 1"
  shows "read_nc_open ds0 start stop vars scal func = read_nc_open ds0 start' stop' vars scal func"
  unfolding read_nc_open_def using assms by simp

text \<open>
  Claim C5, as amended. Once the source is open, \<^verbatim>\<open>read_nc\<close> raises \<^verbatim>\<open>KeyError\<close> with
  the first requested variable that the source does not have, whatever the window; with
  all requested variables present it raises \<^verbatim>\<open>ValueError\<close> (from \<^verbatim>\<open>times.min()\<close>)
  whenever the source has more than one sample and the window selects none, or has no
  sample at all; and a source with exactly one sample is never sliced, so the result does
  not depend on the window.
\<close>

theorem read_nc_failures:
  assumes "opened env ifile start = Inr ds0"
  shows "(\<forall>pre v post.
            var_names vars = pre @ v # post \<and> (\<forall>u\<in>set pre. ds_vars ds0 u \<noteq> None)
              \<and> ds_vars ds0 v = None \<longrightarrow>
            fst (read_nc env w ifile start stop vars scal func) = Inl (KeyError v))
       \<and> (var_names vars \<noteq> [] \<and> (\<forall>u\<in>set (var_names vars). ds_vars ds0 u \<noteq> None)
            \<and> ((1 < length (ds_time ds0)
                  \<and> filter (\<lambda>t. start \<le> t \<and> t \<le> stop) (ds_time ds0) = [])
                \<or> ds_time ds0 = []) \<longrightarrow>
            fst (read_nc env w ifile start stop vars scal func) = Inl ValueError)
       \<and> (length (ds_time ds0) = 1 \<longrightarrow>
            (\<forall>start' stop'. read_nc_open ds0 start stop vars scal func
                              = read_nc_open ds0 start' stop' vars scal func))"
proof (intro conjI allI impI)
  fix pre v post
  assume "var_names vars = pre @ v # post \<and> (\<forall>u\<in>set pre. ds_vars ds0 u \<noteq> None)
              \<and> ds_vars ds0 v = None"
  then show "fst (read_nc env w ifile start stop vars scal func) = Inl (KeyError v)"
    unfolding read_nc_fst assms using read_nc_open_missing [of vars pre v post ds0] by simp
next
  assume a: "var_names vars \<noteq> [] \<and> (\<forall>u\<in>set (var_names vars). ds_vars ds0 u \<noteq> None)
            \<and> ((1 < length (ds_time ds0)
                  \<and> filter (\<lambda>t. start \<le> t \<and> t \<le> stop) (ds_time ds0) = [])
                \<or> ds_time ds0 = [])"
  then have "ds_time (windowed ds0 start stop) = []"
    unfolding windowed_empty by blast
  with a show "fst (read_nc env w ifile start stop vars scal func) = Inl ValueError"
    unfolding read_nc_fst assms using read_nc_open_no_sample [of vars ds0 start stop] by simp
next
  fix start' stop'
  assume "length (ds_time ds0) = 1"
  then show "read_nc_open ds0 start stop vars scal func = read_nc_open ds0 start' stop' vars scal func"
    using read_nc_open_single [of ds0] by simp
qed

text \<open>
  The example dataset has no variable \<^verbatim>\<open>no2\<close>, and no sample in the first half hour of
  2020-01-01.
\<close>

theorem read_nc_failures_witness:
  "opened example_env ''geos.nc'' (ymd2ord 2020 1 1 * day_ns) = Inr example_ds
   \<and> fst (read_nc example_env example_world ''geos.nc'' (ymd2ord 2020 1 1 * day_ns)
            (ymd2ord 2020 1 1 * day_ns + 24 * hour_ns) (StrList [''pm25'', ''no2'', ''dust'']) 1 ''mean'')
       = Inl (KeyError ''no2'')
   \<and> fst (read_nc example_env example_world ''geos.nc'' (ymd2ord 2020 1 1 * day_ns)
            (ymd2ord 2020 1 1 * day_ns + 1800000000000) (StrList [''pm25'']) 1 ''mean'')
       = Inl ValueError
   \<and> read_nc_open single_ds 0 0 (Str ''pm25'') 1 ''mean''
       = read_nc_open single_ds 5 7 (Str ''pm25'') 1 ''mean''"
proof -
  let ?start = "ymd2ord 2020 1 1 * day_ns"
  have o: "opened example_env ''geos.nc'' ?start = Inr example_ds"
    by (simp add: opened_def example_env_def)
  note t = read_nc_failures [OF o, of _ example_world _ 1 "''mean''"]
  have v: "var_names (StrList [''pm25'', ''no2'', ''dust'']) = [''pm25''] @ ''no2'' # [''dust'']
           \<and> (\<forall>u\<in>set [''pm25'']. ds_vars example_ds u \<noteq> None) \<and> ds_vars example_ds ''no2'' = None"
    by (simp add: var_names_def example_ds_def)
  from t [of "StrList [''pm25'', ''no2'', ''dust'']" "?start + 24 * hour_ns", THEN conjunct1] v
  have a: "fst (read_nc example_env example_world ''geos.nc'' ?start
            (?start + 24 * hour_ns) (StrList [''pm25'', ''no2'', ''dust'']) 1 ''mean'')
       = Inl (KeyError ''no2'')"
    by blast
  have e: "var_names (StrList [''pm25'']) \<noteq> []
      \<and> (\<forall>u\<in>set (var_names (StrList [''pm25''])). ds_vars example_ds u \<noteq> None)
      \<and> ((1 < length (ds_time example_ds)
            \<and> filter (\<lambda>t. ?start \<le> t \<and> t \<le> ?start + 1800000000000) (ds_time example_ds) = [])
          \<or> ds_time example_ds = [])"
    by (simp add: var_names_def example_ds_def hour_ns_def)
  from t [of "StrList [''pm25'']" "?start + 1800000000000", THEN conjunct2, THEN conjunct1] e
  have b: "fst (read_nc example_env example_world ''geos.nc'' ?start
            (?start + 1800000000000) (StrList [''pm25'']) 1 ''mean'') = Inl ValueError"
    by blast
  have o1: "opened (example_env\<lparr>xr_open_dataset := (\<lambda>p. Inr single_ds)\<rparr>) ''geos.nc'' 0 = Inr single_ds"
    by (simp add: opened_def example_env_def)
  have s: "length (ds_time single_ds) = 1" by (simp add: single_ds_def)
  from read_nc_failures [OF o1, of "Str ''pm25''" example_world 0 1 "''mean''",
         THEN conjunct2, THEN conjunct2] s
  have c: "read_nc_open single_ds 0 0 (Str ''pm25'') 1 ''mean''
       = read_nc_open single_ds 5 7 (Str ''pm25'') 1 ''mean''"
    by blast
  from o a b c show ?thesis by simp
qed

text \<open>
  Claim C5 as stated fails: the window of 2020-01-01 selects no sample of the dataset
  with the single sample of 2019-06-01, and \<^verbatim>\<open>read_nc\<close> returns that sample.
\<close>

theorem empty_window_returns_counterexample:
  "filter (\<lambda>t. ymd2ord 2020 1 1 * day_ns \<le> t \<and> t \<le> ymd2ord 2020 1 1 * day_ns + 24 * hour_ns)
      (ds_time single_ds) = []
   \<and> fst (read_nc (example_env\<lparr>xr_open_dataset := (\<lambda>p. Inr single_ds)\<rparr>) example_world ''geos.nc''
            (ymd2ord 2020 1 1 * day_ns) (ymd2ord 2020 1 1 * day_ns + 24 * hour_ns)
            (StrList [''pm25'']) 1 ''mean'')
       = Inr (\<lparr>arr_lon = [0, 1], arr_lat = [0, 1], arr_lev = None, arr_values = [10, 20, 0, 5]\<rparr>,
              ymd2ord 2019 6 1 * day_ns)"
  by (simp add: read_nc_def read_nc_open_def example_env_def single_ds_def Let_def
        ds_getitem_def times_min_def da_reduce_def day_ns_def hour_ns_def ymd2ord_def
        days_before_year_def days_before_month_def DAYS_BEFORE_MONTH_def is_leap_def)

lemma read_nc_open_unbound_arr:
  assumes "func \<notin> {''mean'', ''max'', ''min''}"
    and "var_names vars \<noteq> []"
    and "\<forall>u\<in>set (var_names vars). ds_vars ds0 u \<noteq> None"
    and "ds_time (windowed ds0 start stop) \<noteq> []"
  shows "read_nc_open ds0 start stop vars scal func = Inl (UnboundLocalError ''arr'')"
proof -
  let ?ds = "windowed ds0 start stop"
  from assms(2) obtain v vs where vn: "var_names vars = v # vs"
    by (cases "var_names vars") auto
  let ?arrs = "foldl da_add (get_array ?ds v) (map (get_array ?ds) vs)"
  have loop: "read_nc_loop ?ds (enumerate 0 (var_names vars)) None = Inr (Some ?arrs)"
    unfolding vn by (rule loop_all_present) (use assms(3) vn in \<open>simp add: ds_vars_windowed\<close>)
  obtain m where m: "times_min (da_time ?arrs) = Inr m"
    using times_min_Inr [OF assms(4)] unfolding summed_fields by blast
  have "reduced func ?arrs = None"
    using assms(1) by (simp add: reduced_def)
  then show ?thesis
    unfolding read_nc_open_after_loop [OF loop m] by simp
qed

text \<open>
  Claim C9. \<^verbatim>\<open>read_nc\<close> returns a field only when the reducer is named \<^verbatim>\<open>mean\<close>,
  \<^verbatim>\<open>max\<close> or \<^verbatim>\<open>min\<close>; for any other name it raises, and when nothing else fails
  before, the exception is the \<^verbatim>\<open>UnboundLocalError\<close> of the variable \<^verbatim>\<open>arr\<close>, which
  no branch has assigned.
\<close>

theorem read_nc_reducer_names:
  "(\<forall>r. fst (read_nc env w ifile start stop vars scal func) = Inr r \<longrightarrow>
          func \<in> {''mean'', ''max'', ''min''})
   \<and> (func \<notin> {''mean'', ''max'', ''min''} \<longrightarrow>
        (\<exists>e. fst (read_nc env w ifile start stop vars scal func) = Inl e))
   \<and> (func \<notin> {''mean'', ''max'', ''min''} \<and> opened env ifile start = Inr ds0
        \<and> var_names vars \<noteq> [] \<and> (\<forall>u\<in>set (var_names vars). ds_vars ds0 u \<noteq> None)
        \<and> ds_time (windowed ds0 start stop) \<noteq> [] \<longrightarrow>
        fst (read_nc env w ifile start stop vars scal func) = Inl (UnboundLocalError ''arr''))"
proof -
  have none: "\<exists>e. fst (read_nc env w ifile start stop vars scal func) = Inl e"
    if "func \<notin> {''mean'', ''max'', ''min''}"
  proof (cases "opened env ifile start")
    case (Inl e)
    then show ?thesis by (simp add: read_nc_fst)
  next
    case (Inr ds)
    then show ?thesis
      using read_nc_open_unknown [of func ds start stop vars scal] that
      by (simp add: read_nc_fst)
  qed
  have exact: "fst (read_nc env w ifile start stop vars scal func) = Inl (UnboundLocalError ''arr'')"
    if "func \<notin> {''mean'', ''max'', ''min''}" "opened env ifile start = Inr ds0"
       "var_names vars \<noteq> []" "\<forall>u\<in>set (var_names vars). ds_vars ds0 u \<noteq> None"
       "ds_time (windowed ds0 start stop) \<noteq> []"
    unfolding read_nc_fst that(2) using read_nc_open_unbound_arr [OF that(1,3,4,5)] by simp
  from none exact show ?thesis
    by (metis sum.distinct(1))
qed

text \<open>
  The reducer \<^verbatim>\<open>median\<close> on the example dataset.
\<close>

theorem read_nc_reducer_names_witness:
  "''median'' \<notin> {''mean'', ''max'', ''min''}
   \<and> fst (read_nc example_env example_world ''geos.nc'' (ymd2ord 2020 1 1 * day_ns)
          (ymd2ord 2020 1 1 * day_ns + 24 * hour_ns) (StrList [''pm25'']) 1 ''median'')
      = Inl (UnboundLocalError ''arr'')
   \<and> fst (read_nc example_env example_world ''geos.nc'' (ymd2ord 2020 1 1 * day_ns)
          (ymd2ord 2020 1 1 * day_ns + 24 * hour_ns) (StrList [''pm25'']) 1 ''min'')
      = Inr (\<lparr>arr_lon = [0, 1], arr_lat = [0, 1], arr_lev = None, arr_values = [10, 20, 0, 5]\<rparr>,
             ymd2ord 2020 1 1 * day_ns + 2 * hour_ns)
   \<and> ''min'' \<in> {''mean'', ''max'', ''min''}"
proof -
  let ?start = "ymd2ord 2020 1 1 * day_ns"
  let ?stop = "ymd2ord 2020 1 1 * day_ns + 24 * hour_ns"
  have f: "''median'' \<notin> {''mean'', ''max'', ''min''}" by simp
  have o: "opened example_env ''geos.nc'' ?start = Inr example_ds"
    by (simp add: opened_def example_env_def)
  have v: "var_names (StrList [''pm25'']) \<noteq> []
           \<and> (\<forall>u\<in>set (var_names (StrList [''pm25''])). ds_vars example_ds u \<noteq> None)"
    by (simp add: var_names_def example_ds_def)
  have t: "ds_time (windowed example_ds ?start ?stop) \<noteq> []"
    by (simp add: windowed_def example_ds_def sel_time_def day_ns_def hour_ns_def)
  from read_nc_reducer_names [of example_env example_world "''geos.nc''" ?start ?stop
         "StrList [''pm25'']" 1 "''median''" example_ds, THEN conjunct2, THEN conjunct2]
       f o v t
  have a: "fst (read_nc example_env example_world ''geos.nc'' ?start ?stop (StrList [''pm25'']) 1 ''median'')
      = Inl (UnboundLocalError ''arr'')"
    by blast
  have run: "fst (read_nc example_env example_world ''geos.nc'' ?start ?stop (StrList [''pm25'']) 1 ''min'')
      = Inr (\<lparr>arr_lon = [0, 1], arr_lat = [0, 1], arr_lev = None, arr_values = [10, 20, 0, 5]\<rparr>,
             ymd2ord 2020 1 1 * day_ns + 2 * hour_ns)"
    by (simp add: read_nc_def read_nc_open_def example_env_def example_ds_def Let_def
          sel_time_def sel_series_def ds_getitem_def times_min_def da_reduce_def
          day_ns_def hour_ns_def ymd2ord_def)
  from read_nc_reducer_names [of example_env example_world "''geos.nc''" ?start ?stop
         "StrList [''pm25'']" 1 "''min''" example_ds, THEN conjunct1] run
  have b: "''min'' \<in> {''mean'', ''max'', ''min''}"
    by blast
  from f a run b show ?thesis by blast
qed

subsection \<open>The render step in main\<close>












end
